theory Spec2Isabelle
  imports Complex_Main
begin

section \<open>Frames, instants and Python values\<close>

text \<open>
  The analyses of \<^verbatim>\<open>src/data/pattern_analyzer.py\<close> and
  \<^verbatim>\<open>src/models/timeline_builder.py\<close> read a pandas frame. Of a row they read
  only its instant (the \<^verbatim>\<open>datetime\<close> or \<^verbatim>\<open>timestamp\<close> cell) and its
  \<^verbatim>\<open>predicted_activity\<close> cell; of the frame they read and write the column names.
  An instant is the proleptic Gregorian ordinal of its calendar date
  (\<^verbatim>\<open>date.toordinal()\<close>, so that the \<^verbatim>\<open>.days\<close> of a date difference is the
  difference of ordinals) and the second of the day. The columns \<^verbatim>\<open>date\<close>,
  \<^verbatim>\<open>hour\<close> and \<^verbatim>\<open>week\<close> that the code writes are functions of the instant, so
  writing one of them changes the column names only.

  Floats are real numbers here, and a float that may be NaN is a \<open>real option\<close>
  with \<open>None\<close> for NaN: every comparison with NaN is false, as in Python. The
  code computes in binary64, the model computes the same expressions exactly. What
  is proved about which records and keys exist, about integers and about strings
  does not turn on rounding; the one statement that turns on the comparison of two
  floats, the threshold of the anomaly test, is made with a margin around the
  threshold.
\<close>

record instant =
  day :: int
  secs :: nat

definition hour :: "instant \<Rightarrow> nat" where
  "hour t = secs t div 3600"

text \<open>\<^verbatim>\<open>dt.to_period('W')\<close>: weeks run from Monday to Sunday; ordinal 1 is a Monday.\<close>

definition week :: "instant \<Rightarrow> int" where
  "week t = (day t - 1) div 7"

record row =
  datetime :: instant
  predicted_activity :: string

record dataframe =
  columns :: "string list"
  rows :: "row list"

datatype py_error = KeyError | AttributeError | ValueError | IndexError | DivideByZero

text \<open>\<^verbatim>\<open>data.empty\<close>: true when either axis has length 0.\<close>

definition df_empty :: "dataframe \<Rightarrow> bool" where
  "df_empty data \<longleftrightarrow> rows data = [] \<or> columns data = []"

text \<open>
  \<^verbatim>\<open>data[name]\<close> followed by a series operation: a missing name raises KeyError; a
  name that occurs twice selects a frame, not a series, and the series operation on
  it raises (\<open>dup\<close> is the error of that operation).
\<close>

definition get_series :: "py_error \<Rightarrow> dataframe \<Rightarrow> string \<Rightarrow> (row \<Rightarrow> 'a) \<Rightarrow> py_error + 'a list" where
  "get_series dup data name field =
     (if name \<notin> set (columns data) then Inl KeyError
      else if 1 < count_list (columns data) name then Inl dup
      else Inr (map field (rows data)))"

text \<open>\<^verbatim>\<open>data[name] = ...\<close>: a new name is appended to the columns.\<close>

definition set_column :: "dataframe \<Rightarrow> string \<Rightarrow> dataframe" where
  "set_column data name =
     (if name \<in> set (columns data) then data
      else data\<lparr>columns := columns data @ [name]\<rparr>)"

text \<open>\<^verbatim>\<open>data.loc[:, ~data.columns.duplicated()]\<close>: the first occurrence of a name stays.\<close>

fun drop_duplicated :: "string list \<Rightarrow> string list \<Rightarrow> string list" where
  "drop_duplicated seen [] = []"
| "drop_duplicated seen (c # cs) =
     (if c \<in> set seen then drop_duplicated seen cs else c # drop_duplicated (c # seen) cs)"

text \<open>\<^verbatim>\<open>Series.unique()\<close>: the distinct values in order of first appearance.\<close>

fun unique :: "'a list \<Rightarrow> 'a list \<Rightarrow> 'a list" where
  "unique seen [] = []"
| "unique seen (x # xs) =
     (if x \<in> set seen then unique seen xs else x # unique (x # seen) xs)"

text \<open>\<^verbatim>\<open>groupby(key).size()\<close>: one entry per distinct key, ascending, with its row count.\<close>

definition groupby_size :: "'k::linorder list \<Rightarrow> ('k \<times> nat) list" where
  "groupby_size ks = map (\<lambda>k. (k, count_list ks k)) (sort (remdups ks))"

text \<open>
  \<^verbatim>\<open>groupby('date')['hour'].min()\<close> and \<^verbatim>\<open>.max()\<close>: a group is never empty, so
  the value at \<open>[]\<close> is never read.
\<close>

definition series_min :: "nat list \<Rightarrow> nat" where
  "series_min hs = (case hs of [] \<Rightarrow> 0 | h # t \<Rightarrow> fold min t h)"

definition series_max :: "nat list \<Rightarrow> nat" where
  "series_max hs = (case hs of [] \<Rightarrow> 0 | h # t \<Rightarrow> fold max t h)"

definition groupby_agg :: "(nat list \<Rightarrow> nat) \<Rightarrow> (int \<times> nat) list \<Rightarrow> (int \<times> nat) list" where
  "groupby_agg f kvs =
     map (\<lambda>k. (k, f (map snd (filter (\<lambda>kv. fst kv = k) kvs)))) (sort (remdups (map fst kvs)))"

subsection \<open>Series statistics (pandas)\<close>

definition series_mean :: "real list \<Rightarrow> real option" where
  "series_mean xs = (if xs = [] then None else Some (sum_list xs / real (length xs)))"

text \<open>\<^verbatim>\<open>Series.std()\<close> has \<^verbatim>\<open>ddof=1\<close>: the divisor is \<open>n - 1\<close>, and fewer than two
  values give NaN.\<close>

definition series_std :: "real list \<Rightarrow> real option" where
  "series_std xs =
     (if length xs < 2 then None
      else let m = sum_list xs / real (length xs)
           in Some (sqrt (sum_list (map (\<lambda>x. (x - m) * (x - m)) xs) / real (length xs - 1))))"

text \<open>\<^verbatim>\<open>Series.mode()\<close>: the values of the highest count, sorted ascending.\<close>

definition max_count :: "'a list \<Rightarrow> nat" where
  "max_count xs = fold max (map (count_list xs) xs) 0"

definition series_mode :: "nat list \<Rightarrow> nat list" where
  "series_mode xs = sort (filter (\<lambda>v. count_list xs v = max_count xs) (remdups xs))"

text \<open>
  \<^verbatim>\<open>Series.rolling(window=w, min_periods=mp, center=True).mean()\<close>: the window of
  position \<open>i\<close> ends before \<open>i + 1 + (w - 1) div 2\<close> and starts \<open>w\<close> positions
  earlier, both clipped to the series; fewer than \<open>mp\<close> values in it give NaN.
  \<^verbatim>\<open>min_periods\<close> is the window size when it is not given.
\<close>

definition rolling_mean_centered :: "nat \<Rightarrow> nat \<Rightarrow> real list \<Rightarrow> real option list" where
  "rolling_mean_centered w mp vs =
     map (\<lambda>i. let e = min (length vs) (i + 1 + (w - 1) div 2);
                  s = (if w \<le> i + 1 + (w - 1) div 2 then i + 1 + (w - 1) div 2 - w else 0);
                  nobs = e - s
              in if mp \<le> nobs \<and> 0 < nobs
                 then Some (sum_list (take nobs (drop s vs)) / real nobs) else None)
         [0..<length vs]"

text \<open>\<^verbatim>\<open>Series.get(key, default)\<close>.\<close>

definition series_get :: "('k \<times> 'v) list \<Rightarrow> 'k \<Rightarrow> 'v \<Rightarrow> 'v" where
  "series_get s k d = (case map_of s k of None \<Rightarrow> d | Some v \<Rightarrow> v)"

text \<open>
  \<^verbatim>\<open>nlargest(n)\<close> and \<^verbatim>\<open>nsmallest(n)\<close> with \<^verbatim>\<open>keep='first'\<close>: ordered by value,
  equal values in series order.
\<close>

definition nlargest :: "nat \<Rightarrow> (nat \<times> nat) list \<Rightarrow> (nat \<times> nat) list" where
  "nlargest n s = take n (sort_key (\<lambda>kv. - int (snd kv)) s)"

definition nsmallest :: "nat \<Rightarrow> (nat \<times> nat) list \<Rightarrow> (nat \<times> nat) list" where
  "nsmallest n s = take n (sort_key (\<lambda>kv. int (snd kv)) s)"

text \<open>Float division: a zero divisor has no finite quotient.\<close>

definition fdiv :: "real \<Rightarrow> real \<Rightarrow> real option" where
  "fdiv a b = (if b = 0 then None else Some (a / b))"

text \<open>\<^verbatim>\<open>str(n)\<close> for a length and \<^verbatim>\<open>s.replace('_', ' ')\<close>.\<close>

fun str_nat :: "nat \<Rightarrow> string" where
  "str_nat n =
     (if n < 10 then [''0123456789'' ! n]
      else str_nat (n div 10) @ [''0123456789'' ! (n mod 10)])"

declare str_nat.simps [simp del]

definition replace_underscore :: "string \<Rightarrow> string" where
  "replace_underscore s = map (\<lambda>c. if c = CHR ''_'' then CHR '' '' else c) s"

section \<open>PatternAnalyzer\<close>

text \<open>The dictionaries that \<^verbatim>\<open>detect_life_events\<close> returns: the keys are the fields.\<close>

datatype life_event =
    is_VolumeEvent: VolumeEvent (ev_date: int) (ev_type: string) (ev_description: string)
      (ev_confidence: real) (activity_count: nat) (expected_count: real)
  | is_TravelEvent: TravelEvent (ev_date: int) (ev_type: string) (ev_description: string)
      (ev_confidence: real) (duration_days: nat)

subsection \<open>\<^verbatim>\<open>_detect_travel_patterns\<close>\<close>

text \<open>The loop over the sorted dates, with its two accumulators.\<close>

fun group_periods :: "int list list \<Rightarrow> int list \<Rightarrow> int list \<Rightarrow> int list list \<times> int list" where
  "group_periods travel_periods current_period [] = (travel_periods, current_period)"
| "group_periods travel_periods current_period (date # dates) =
     (if current_period = [] \<or> date - last current_period \<le> 1
      then group_periods travel_periods (current_period @ [date]) dates
      else group_periods
             (if 1 \<le> length current_period then travel_periods @ [current_period]
              else travel_periods)
             [date] dates)"

definition travel_periods_of :: "int list \<Rightarrow> int list list" where
  "travel_periods_of dates =
     (case group_periods [] [] dates of
        (travel_periods, current_period) \<Rightarrow>
          if current_period \<noteq> [] then travel_periods @ [current_period] else travel_periods)"

fun travel_events :: "int list list \<Rightarrow> life_event list" where
  "travel_events [] = []"
| "travel_events (period # periods) =
     (if 2 \<le> length period
      then TravelEvent (hd period) ''travel_period''
             (str_nat (length period) @ ''-day travel period'') (8 / 10) (length period)
           # travel_events periods
      else travel_events periods)"

text \<open>
  The rows are sorted by instant before their dates are read; the sort is stable on
  the instant. Only the sorted distinct dates are used afterwards.
  \<^verbatim>\<open>sort_values('datetime')\<close> raises KeyError without that column and
  ValueError when the label is not unique.
\<close>

definition travel_dates :: "dataframe \<Rightarrow> int list" where
  "travel_dates data =
     sort (remdups (map (\<lambda>r. day (datetime r))
       (sort_key (\<lambda>r. day (datetime r) * 86400 + int (secs (datetime r)))
          (filter (\<lambda>r. predicted_activity r = ''Travel'') (rows data)))))"

definition detect_travel_patterns :: "dataframe \<Rightarrow> py_error + life_event list" where
  "detect_travel_patterns data =
     (case get_series AttributeError data ''predicted_activity'' predicted_activity of
        Inl e \<Rightarrow> Inl e
      | Inr labels \<Rightarrow>
          if filter (\<lambda>l. l = ''Travel'') labels = [] then Inr []
          else (case get_series ValueError data ''datetime'' datetime of
                  Inl e \<Rightarrow> Inl e
                | Inr dts \<Rightarrow> Inr (travel_events (travel_periods_of (travel_dates data)))))"

subsection \<open>\<^verbatim>\<open>detect_life_events\<close>\<close>

text \<open>
  One iteration of the loop over \<^verbatim>\<open>daily_counts.items()\<close>. The standard deviation
  is read from the whole series of counts in every iteration. The division of the
  confidence is the only division by a value of the data; a zero divisor there is
  reported as \<open>DivideByZero\<close>. The test compares exact values here and
  binary64 values in the code: when the deviation is within rounding of twice the
  standard deviation, the code may decide either way.
\<close>

definition volume_event ::
  "(int \<times> real option) list \<Rightarrow> (int \<times> nat) list \<Rightarrow> int \<times> nat \<Rightarrow> py_error + life_event option" where
  "volume_event rolling_avg daily_counts item =
     (case item of (date, count) \<Rightarrow>
        (case series_get rolling_avg date (Some (real count)) of
           None \<Rightarrow> Inr None
         | Some expected \<Rightarrow>
             (case series_std (map (\<lambda>dc. real (snd dc)) daily_counts) of
                None \<Rightarrow> Inr None
              | Some sd \<Rightarrow>
                  if 2 * sd < \<bar>real count - expected\<bar> then
                    (let event_type =
                       (if expected < real count then ''high_activity'' else ''low_activity'')
                     in case fdiv \<bar>real count - expected\<bar> sd of
                          None \<Rightarrow> Inl DivideByZero
                        | Some q \<Rightarrow>
                            Inr (Some (VolumeEvent date event_type
                              (''Unusual '' @ replace_underscore event_type @ '' detected'')
                              (min (q / 3) 1) count expected)))
                  else Inr None)))"

fun volume_loop ::
  "(int \<times> real option) list \<Rightarrow> (int \<times> nat) list \<Rightarrow> life_event list \<Rightarrow> (int \<times> nat) list
     \<Rightarrow> py_error + life_event list" where
  "volume_loop rolling_avg daily_counts events [] = Inr events"
| "volume_loop rolling_avg daily_counts events (item # items) =
     (case volume_event rolling_avg daily_counts item of
        Inl e \<Rightarrow> Inl e
      | Inr None \<Rightarrow> volume_loop rolling_avg daily_counts events items
      | Inr (Some ev) \<Rightarrow> volume_loop rolling_avg daily_counts (events @ [ev]) items)"

definition rolling_avg_of :: "(int \<times> nat) list \<Rightarrow> (int \<times> real option) list" where
  "rolling_avg_of daily_counts =
     zip (map fst daily_counts)
         (rolling_mean_centered 7 7 (map (\<lambda>dc. real (snd dc)) daily_counts))"

text \<open>
  The function writes the columns \<^verbatim>\<open>datetime\<close> (when only \<^verbatim>\<open>timestamp\<close> is
  there) and \<^verbatim>\<open>date\<close> into the frame it was given: the frame after the call is
  part of the result. \<^verbatim>\<open>groupby('date')\<close> raises ValueError when the frame has
  two columns of that name.
\<close>

definition detect_life_events :: "dataframe \<Rightarrow> py_error + (life_event list \<times> dataframe)" where
  "detect_life_events data =
     (if df_empty data \<or> length (rows data) < 10 then Inr ([], data)
      else
        (case (if ''datetime'' \<notin> set (columns data) \<and> ''timestamp'' \<in> set (columns data)
               then (case get_series ValueError data ''timestamp'' datetime of
                       Inl e \<Rightarrow> Inl e
                     | Inr ts \<Rightarrow> Inr (set_column data ''datetime''))
               else Inr data) of
           Inl e \<Rightarrow> Inl e
         | Inr data1 \<Rightarrow>
             (case get_series AttributeError data1 ''datetime'' datetime of
                Inl e \<Rightarrow> Inl e
              | Inr dts \<Rightarrow>
                  (let data2 = set_column data1 ''date'';
                       daily_counts = groupby_size (map day dts)
                   in if 1 < count_list (columns data2) ''date'' then Inl ValueError
                      else
                      (case volume_loop (rolling_avg_of daily_counts) daily_counts [] daily_counts of
                         Inl e \<Rightarrow> Inl e
                       | Inr events \<Rightarrow>
                           (if ''predicted_activity'' \<in> set (columns data2)
                            then (case detect_travel_patterns data2 of
                                    Inl e \<Rightarrow> Inl e
                                  | Inr travel \<Rightarrow> Inr (sort_key ev_date (events @ travel), data2))
                            else Inr (sort_key ev_date events, data2)))))))"

subsection \<open>\<^verbatim>\<open>analyze_daily_routine\<close>\<close>

datatype pattern_value =
    Stats (average: "real option") (std: "real option") (most_common: "nat option")
  | Hist "(nat \<times> nat) list"
  | Hours "nat list"

text \<open>\<^verbatim>\<open>s.mode().iloc[0] if not s.empty else None\<close>\<close>

definition mode_iloc0 :: "nat list \<Rightarrow> py_error + nat option" where
  "mode_iloc0 s =
     (if s = [] then Inr None
      else case series_mode s of [] \<Rightarrow> Inl IndexError | m # ms \<Rightarrow> Inr (Some m))"

definition daily_first_activity :: "row list \<Rightarrow> nat list" where
  "daily_first_activity rs =
     map snd (groupby_agg series_min (map (\<lambda>r. (day (datetime r), hour (datetime r))) rs))"

definition daily_last_activity :: "row list \<Rightarrow> nat list" where
  "daily_last_activity rs =
     map snd (groupby_agg series_max (map (\<lambda>r. (day (datetime r), hour (datetime r))) rs))"

text \<open>
  The function works on a copy: the caller's frame comes back as it was. The result
  is the dictionary \<^verbatim>\<open>patterns\<close>, its keys in insertion order.
\<close>

definition analyze_daily_routine ::
  "dataframe \<Rightarrow> py_error + ((string \<times> pattern_value) list \<times> dataframe)" where
  "analyze_daily_routine data =
     (if df_empty data \<or> ''datetime'' \<notin> set (columns data) then Inr ([], data)
      else
        let copy = data\<lparr>columns := drop_duplicated [] (columns data)\<rparr>;
            copy = set_column (set_column (set_column copy ''datetime'') ''hour'') ''date'';
            first = daily_first_activity (rows copy);
            last = daily_last_activity (rows copy);
            hourly_activity = groupby_size (map (\<lambda>r. hour (datetime r)) (rows copy))
        in (case mode_iloc0 first of
              Inl e \<Rightarrow> Inl e
            | Inr wake_mode \<Rightarrow>
                (case mode_iloc0 last of
                   Inl e \<Rightarrow> Inl e
                 | Inr sleep_mode \<Rightarrow>
                     Inr ([(''wake_up_time'',
                             Stats (series_mean (map real first)) (series_std (map real first)) wake_mode),
                           (''sleep_time'',
                             Stats (series_mean (map real last)) (series_std (map real last)) sleep_mode),
                           (''hourly_activity'', Hist hourly_activity),
                           (''peak_hours'', Hours (map fst (nlargest 3 hourly_activity))),
                           (''quiet_hours'', Hours (map fst (nsmallest 3 hourly_activity)))],
                          data))))"

section \<open>TimelineBuilder\<close>

text \<open>
  \<^verbatim>\<open>np.polyfit(x, values, 1)\<close> is NumPy's: it returns the two coefficients of
  the fitted line, the slope first. The trend functions take it as the parameter
  \<open>polyfit\<close>, so that what is proved of them holds for the fit as NumPy computes
  it. \<open>polyfit1\<close> is the least-squares line in exact arithmetic, by the normal
  equations; the examples are evaluated with it.
\<close>

definition polyfit1 :: "real list \<Rightarrow> real list \<Rightarrow> real \<times> real" where
  "polyfit1 xs ys =
     (let n = real (length xs);
          sx = sum_list xs;
          sy = sum_list ys;
          sxx = sum_list (map (\<lambda>x. x * x) xs);
          sxy = sum_list (map (\<lambda>xy. fst xy * snd xy) (zip xs ys));
          a = (n * sxy - sx * sy) / (n * sxx - sx * sx)
      in (a, (sy - a * sx) / n))"

text \<open>The sum of the squared residuals of the line \<open>a * x + b\<close> on the points.\<close>

definition sum_squares :: "real list \<Rightarrow> real list \<Rightarrow> real \<Rightarrow> real \<Rightarrow> real" where
  "sum_squares xs ys a b =
     sum_list (map (\<lambda>xy. (snd xy - (a * fst xy + b)) * (snd xy - (a * fst xy + b))) (zip xs ys))"

definition calculate_trend :: "(real list \<Rightarrow> real list \<Rightarrow> real \<times> real) \<Rightarrow> real list \<Rightarrow> real" where
  "calculate_trend polyfit values =
     (if length values < 2 then 0
      else fst (polyfit (map real [0..<length values]) values))"

datatype trend_value =
    TFloat real
  | TStr string
  | TDict "(string \<times> real) list"
  | THist "(nat \<times> nat) list"

definition weekly_counts_of :: "row list \<Rightarrow> real list" where
  "weekly_counts_of rs = map (\<lambda>wc. real (snd wc)) (groupby_size (map (\<lambda>r. week (datetime r)) rs))"

fun activity_trends_loop ::
  "(real list \<Rightarrow> real list \<Rightarrow> real \<times> real) \<Rightarrow> row list \<Rightarrow> (string \<times> real) list \<Rightarrow> string list
     \<Rightarrow> (string \<times> real) list" where
  "activity_trends_loop polyfit rs activity_trends [] = activity_trends"
| "activity_trends_loop polyfit rs activity_trends (activity # activities) =
     (let activity_weekly = weekly_counts_of (filter (\<lambda>r. predicted_activity r = activity) rs)
      in if 2 < length activity_weekly
         then activity_trends_loop polyfit rs
                (activity_trends @ [(activity, calculate_trend polyfit activity_weekly)]) activities
         else activity_trends_loop polyfit rs activity_trends activities)"

definition trend_direction :: "real \<Rightarrow> string" where
  "trend_direction t = (if 0 < t then ''increasing'' else if t < 0 then ''decreasing'' else ''stable'')"

text \<open>
  The function writes the column \<^verbatim>\<open>week\<close> into the frame it was given.
  \<^verbatim>\<open>groupby('week')\<close> raises ValueError when the frame has two columns of that
  name.
\<close>

definition analyze_activity_trends ::
  "(real list \<Rightarrow> real list \<Rightarrow> real \<times> real) \<Rightarrow> dataframe
     \<Rightarrow> py_error + ((string \<times> trend_value) list \<times> dataframe)" where
  "analyze_activity_trends polyfit data =
     (if df_empty data then Inr ([], data)
      else
        (case get_series AttributeError data ''datetime'' datetime of
           Inl e \<Rightarrow> Inl e
         | Inr dts \<Rightarrow>
             (let data1 = set_column data ''week'';
                  weekly_counts = weekly_counts_of (rows data1);
                  dup_week = (1 < count_list (columns data1) ''week'');
                  trends = (if 2 < length weekly_counts
                            then [(''overall_trend'', TFloat (calculate_trend polyfit weekly_counts)),
                                  (''trend_direction'',
                                     TStr (trend_direction (calculate_trend polyfit weekly_counts)))]
                            else [])
              in if dup_week then Inl ValueError
                 else
                 (case get_series AttributeError data1 ''predicted_activity'' predicted_activity of
                    Inl e \<Rightarrow> Inl e
                  | Inr labels \<Rightarrow>
                      Inr (trends @
                           [(''activity_specific_trends'',
                               TDict (activity_trends_loop polyfit (rows data1) [] (unique [] labels))),
                            (''hourly_distribution'',
                               THist (groupby_size (map (\<lambda>r. hour (datetime r)) (rows data1))))],
                           data1)))))"

section \<open>The specification's variants\<close>

text \<open>
  The specification words three computations differently from the code. Each wording
  is written down here as the specification has it, to be compared with the code.
\<close>

text \<open>"the population standard deviation of the entire count series": divisor \<open>n\<close>.\<close>

definition spec_population_std :: "real list \<Rightarrow> real option" where
  "spec_population_std xs =
     (if xs = [] then None
      else let m = sum_list xs / real (length xs)
           in Some (sqrt (sum_list (map (\<lambda>x. (x - m) * (x - m)) xs) / real (length xs))))"

text \<open>"days at the series boundary where fewer than 7 values are available use
  whatever values exist": one value in the window is enough.\<close>

definition spec_rolling_avg_of :: "(int \<times> nat) list \<Rightarrow> (int \<times> real option) list" where
  "spec_rolling_avg_of daily_counts =
     zip (map fst daily_counts)
         (rolling_mean_centered 7 1 (map (\<lambda>dc. real (snd dc)) daily_counts))"


section \<open>Predicates of the properties\<close>

text \<open>The series \<^verbatim>\<open>daily_counts\<close> of a frame, and its values as floats.\<close>

definition daily_counts :: "dataframe \<Rightarrow> (int \<times> nat) list" where
  "daily_counts data = groupby_size (map (\<lambda>r. day (datetime r)) (rows data))"

definition counts_series :: "(int \<times> nat) list \<Rightarrow> real list" where
  "counts_series dc = map (\<lambda>dc. real (snd dc)) dc"

text \<open>
  A run is a list of dates whose successive gaps are at most one day. A list of runs
  is separated when each run starts more than one day after the run before it ends.
  The maximal runs of a list of dates cut it into non-empty separated runs.
\<close>

fun consecutive :: "int list \<Rightarrow> bool" where
  "consecutive (a # b # ds) \<longleftrightarrow> b - a \<le> 1 \<and> consecutive (b # ds)"
| "consecutive ds \<longleftrightarrow> True"

fun separated :: "int list list \<Rightarrow> bool" where
  "separated (p # q # ps) \<longleftrightarrow> 1 < hd q - last p \<and> separated (q # ps)"
| "separated ps \<longleftrightarrow> True"

definition maximal_runs :: "int list \<Rightarrow> int list list \<Rightarrow> bool" where
  "maximal_runs dates periods \<longleftrightarrow>
     concat periods = dates \<and> [] \<notin> set periods \<and> list_all consecutive periods \<and>
     separated periods"

text \<open>
  The code evaluates the anomaly test in binary64, the model over the reals. Every
  count is an integer, the rolling mean rounds one quotient, and the standard
  deviation is a two-pass sum of squares: the two sides of the test carry a relative
  error far below one millionth, which is the margin that the statement about the
  threshold leaves open on either side of it.
\<close>

definition rounding_margin :: real where
  "rounding_margin = 1 / 1000000"

text \<open>
  The smallest of the most frequent values of a series, and what a result of
  \<^verbatim>\<open>analyze_daily_routine\<close> holds: its keys, and the \<^verbatim>\<open>most_common\<close> entry under
  one of them.
\<close>

definition is_smallest_mode :: "nat list \<Rightarrow> nat \<Rightarrow> bool" where
  "is_smallest_mode s m \<longleftrightarrow>
     m \<in> set s \<and>
     (\<forall>v\<in>set s. count_list s v \<le> count_list s m \<and> (count_list s v = count_list s m \<longrightarrow> m \<le> v))"




definition routine_keys :: "dataframe \<Rightarrow> string list" where
  "routine_keys data =
     (case analyze_daily_routine data of Inl e \<Rightarrow> [] | Inr (patterns, data') \<Rightarrow> map fst patterns)"


text \<open>The invariant of the loop of \<open>group_periods\<close> on its two accumulators.\<close>

definition periods_inv :: "int list list \<Rightarrow> int list \<Rightarrow> bool" where
  "periods_inv tps cur \<longleftrightarrow>
     [] \<notin> set tps \<and> list_all consecutive tps \<and> consecutive cur \<and>
     (tps \<noteq> [] \<longrightarrow> cur \<noteq> []) \<and>
     separated (if cur = [] then tps else tps @ [cur])"

section \<open>Example frames\<close>

text \<open>A row at nine o'clock on the given day of January 2024 (1 January 2024 has
  ordinal 738886).\<close>

definition jan :: "nat \<Rightarrow> string \<Rightarrow> row" where
  "jan d l = \<lparr>datetime = \<lparr>day = 738885 + int d, secs = 32400\<rparr>, predicted_activity = l\<rparr>"

definition travel_frame :: dataframe where
  "travel_frame =
     \<lparr>columns = [''datetime'', ''predicted_activity''],
      rows = [jan 10 ''Travel'', jan 2 ''Travel'', jan 1 ''Travel'', jan 5 ''Work'',
              jan 3 ''Travel'', jan 2 ''Travel'']\<rparr>"

definition timestamp_frame :: dataframe where
  "timestamp_frame =
     \<lparr>columns = [''timestamp'', ''predicted_activity''], rows = [jan 1 ''Work'']\<rparr>"

text \<open>Frames of rows labelled Work: a spike on 5 January, one row a day, and a skewed week.\<close>

definition work :: "nat \<Rightarrow> row" where
  "work d = jan d ''Work''"

definition spike_frame :: dataframe where
  "spike_frame =
     \<lparr>columns = [''datetime'', ''predicted_activity''],
      rows = [work 1, work 2, work 3, work 4, work 5, work 5, work 5, work 5,
              work 6, work 7, work 8, work 9]\<rparr>"

definition flat_frame :: dataframe where
  "flat_frame =
     \<lparr>columns = [''datetime'', ''predicted_activity''],
      rows = [work 1, work 2, work 3, work 4, work 5, work 6, work 7, work 8, work 9,
              work 10]\<rparr>"

definition skew_frame :: dataframe where
  "skew_frame =
     \<lparr>columns = [''datetime'', ''predicted_activity''],
      rows = [work 1, work 2, work 3,
              work 4, work 4, work 4, work 4, work 4, work 4, work 4, work 4,
              work 5, work 5, work 5, work 5, work 6, work 6, work 6, work 6, work 7]\<rparr>"

text \<open>
  Two days whose first hours 9 and 7 tie; eight rows over three weeks, Work in all
  three and Travel in two; a frame without rows; the frame of one row a day with a
  \<^verbatim>\<open>timestamp\<close> column in place of \<^verbatim>\<open>datetime\<close>.
\<close>

definition tie_frame :: dataframe where
  "tie_frame =
     \<lparr>columns = [''datetime'', ''predicted_activity''],
      rows = [\<lparr>datetime = \<lparr>day = 738886, secs = 32400\<rparr>, predicted_activity = ''Work''\<rparr>,
              \<lparr>datetime = \<lparr>day = 738887, secs = 25200\<rparr>, predicted_activity = ''Work''\<rparr>]\<rparr>"


definition trend_frame :: dataframe where
  "trend_frame =
     \<lparr>columns = [''datetime'', ''predicted_activity''],
      rows = [jan 1 ''Work'', jan 2 ''Travel'', jan 8 ''Work'', jan 8 ''Work'',
              jan 9 ''Travel'', jan 15 ''Work'', jan 15 ''Work'', jan 15 ''Work'']\<rparr>"

definition empty_frame :: dataframe where
  "empty_frame = \<lparr>columns = [''datetime'', ''predicted_activity''], rows = []\<rparr>"

definition timestamp_flat_frame :: dataframe where
  "timestamp_flat_frame = flat_frame\<lparr>columns := [''timestamp'', ''predicted_activity'']\<rparr>"


section \<open>Interval merging\<close>

lemma consecutive_snoc:
  "consecutive (p @ [d]) \<longleftrightarrow> consecutive p \<and> (p \<noteq> [] \<longrightarrow> d - last p \<le> 1)"
  by (induction p rule: consecutive.induct) auto

lemma separated_snoc:
  "separated (ps @ [q]) \<longleftrightarrow> separated ps \<and> (ps \<noteq> [] \<longrightarrow> 1 < hd q - last (last ps))"
  by (induction ps rule: separated.induct) auto

lemma separated_snoc2:
  "separated (ps @ [p, q]) \<longleftrightarrow> separated (ps @ [p]) \<and> 1 < hd q - last p"
  using separated_snoc [of "ps @ [p]" q] by simp

lemma group_periods_inv:
  "periods_inv tps cur \<Longrightarrow> group_periods tps cur ds = (tps', cur') \<Longrightarrow>
     periods_inv tps' cur' \<and> concat tps' @ cur' = concat tps @ cur @ ds"
proof (induction tps cur ds rule: group_periods.induct)
  case (1 tps cur)
  then show ?case by simp
next
  case (2 tps cur date dates)
  show ?case
  proof (cases "cur = [] \<or> date - last cur \<le> 1")
    case True
    have "periods_inv tps (cur @ [date])"
      using "2.prems"(1) True
      by (auto simp: periods_inv_def consecutive_snoc separated_snoc)
    with 2 True show ?thesis by simp
  next
    case False
    have "periods_inv (tps @ [cur]) [date]"
      using "2.prems"(1) False
      by (auto simp: periods_inv_def separated_snoc separated_snoc2)
    moreover have "1 \<le> length cur" using False by (cases cur) auto
    ultimately show ?thesis using 2 False by simp
  qed
qed

lemma travel_periods_maximal: "maximal_runs dates (travel_periods_of dates)"
proof -
  obtain tps cur where g: "group_periods [] [] dates = (tps, cur)"
    by (cases "group_periods [] [] dates")
  have "periods_inv [] []" by (simp add: periods_inv_def)
  from group_periods_inv [OF this g]
  have inv: "periods_inv tps cur" and c: "concat tps @ cur = dates" by simp_all
  show ?thesis using inv c g
    by (auto simp: travel_periods_of_def maximal_runs_def periods_inv_def)
qed

lemma travel_events_runs:
  "map (\<lambda>e. (ev_date e, duration_days e)) (travel_events periods) =
   map (\<lambda>p. (hd p, length p)) (filter (\<lambda>p. 2 \<le> length p) periods)"
  by (induction periods) auto

lemma travel_events_kind: "list_all is_TravelEvent (travel_events periods)"
  by (induction periods) auto

lemma travel_dates_sorted_distinct: "sorted (travel_dates data) \<and> distinct (travel_dates data)"
  by (simp add: travel_dates_def)

lemma detect_travel_patterns_eq:
  "detect_travel_patterns data = Inr evs \<Longrightarrow>
     evs = travel_events (travel_periods_of (travel_dates data))"
proof -
  have "filter (\<lambda>l. l = ''Travel'') (map predicted_activity rs) = [] \<Longrightarrow>
        filter (\<lambda>r. predicted_activity r = ''Travel'') rs = []" for rs :: "row list"
    by (induction rs) (auto split: if_splits)
  then show "detect_travel_patterns data = Inr evs \<Longrightarrow> ?thesis"
    by (auto simp: detect_travel_patterns_def get_series_def travel_dates_def
        travel_periods_of_def split: if_splits)
qed

lemma travel_frame_events:
  "detect_travel_patterns travel_frame =
     Inr [TravelEvent 738886 ''travel_period'' ''3-day travel period'' (8 / 10) 3]"
  by (simp add: detect_travel_patterns_def get_series_def travel_dates_def jan_def
      travel_frame_def travel_periods_of_def str_nat.simps)

text \<open>
  C5. The dates that \<^verbatim>\<open>_detect_travel_patterns\<close> scans are sorted and distinct. The
  periods it collects are the maximal runs of these dates: they cut the dates into
  non-empty runs of gaps of at most one day, each starting more than one day after
  the one before ends. The events are, in order, one travel event for each period of
  at least two dates, with the period's first date and its length, and none for a
  period of one date. Travel rows on 1, 2, 3 and 10 January give one event of
  duration 3 that starts on 1 January.
\<close>

theorem travel_periods_maximal_runs:
  "sorted (travel_dates data) \<and> distinct (travel_dates data) \<and>
   maximal_runs (travel_dates data) (travel_periods_of (travel_dates data)) \<and>
   (detect_travel_patterns data = Inr evs \<longrightarrow>
      list_all is_TravelEvent evs \<and>
      map (\<lambda>e. (ev_date e, duration_days e)) evs =
        map (\<lambda>p. (hd p, length p))
          (filter (\<lambda>p. 2 \<le> length p) (travel_periods_of (travel_dates data)))) \<and>
   travel_dates travel_frame = [738886, 738887, 738888, 738895] \<and>
   detect_travel_patterns travel_frame =
     Inr [TravelEvent 738886 ''travel_period'' ''3-day travel period'' (8 / 10) 3]"
proof -
  have "travel_dates travel_frame = [738886, 738887, 738888, 738895]"
    by (simp add: travel_dates_def travel_frame_def jan_def)
  moreover have "detect_travel_patterns data = Inr evs \<longrightarrow>
      list_all is_TravelEvent evs \<and>
      map (\<lambda>e. (ev_date e, duration_days e)) evs =
        map (\<lambda>p. (hd p, length p))
          (filter (\<lambda>p. 2 \<le> length p) (travel_periods_of (travel_dates data)))"
    using detect_travel_patterns_eq [of data evs] travel_events_runs travel_events_kind
    by auto
  ultimately show ?thesis
    using travel_dates_sorted_distinct travel_periods_maximal travel_frame_events by simp
qed

theorem travel_periods_maximal_runs_witness:
  "maximal_runs [738886, 738887, 738888, 738895]
     [[738886, 738887, 738888], [738895]] \<and>
   map (\<lambda>e. (ev_date e, duration_days e))
     [TravelEvent 738886 ''travel_period'' ''3-day travel period'' (8 / 10) 3] =
   [(738886, 3)]"
  using travel_periods_maximal_runs [of travel_frame
      "[TravelEvent 738886 ''travel_period'' ''3-day travel period'' (8 / 10) 3]"]
  by (simp add: travel_periods_of_def travel_dates_def travel_frame_def jan_def)

section \<open>Volume anomalies\<close>

lemma volume_loop_set:
  "volume_loop ra dc acc items = Inr out \<Longrightarrow>
     set out = set acc \<union> {ev. \<exists>it\<in>set items. volume_event ra dc it = Inr (Some ev)}"
proof (induction items arbitrary: acc)
  case Nil
  then show ?case by simp
next
  case (Cons it items)
  show ?case
  proof (cases "volume_event ra dc it")
    case (Inl e)
    with Cons.prems show ?thesis by simp
  next
    case (Inr r)
    show ?thesis
    proof (cases r)
      case None
      with Inr Cons show ?thesis by auto
    next
      case (Some ev)
      with Inr Cons.prems have "volume_loop ra dc (acc @ [ev]) items = Inr out" by simp
      from Cons.IH [OF this] Inr Some show ?thesis by auto
    qed
  qed
qed

lemma volume_loop_Inl:
  "volume_loop ra dc acc items = Inl e \<Longrightarrow> \<exists>it\<in>set items. volume_event ra dc it = Inl e"
  by (induction items arbitrary: acc) (auto split: sum.splits option.splits)

lemma series_std_nonneg: "series_std xs = Some sd \<Longrightarrow> 0 \<le> sd"
proof -
  assume a: "series_std xs = Some sd"
  define m where "m = sum_list xs / real (length xs)"
  have "0 \<le> sum_list (map (\<lambda>x. (x - m) * (x - m)) xs)"
    by (rule sum_list_nonneg) auto
  moreover from a have "sd = sqrt (sum_list (map (\<lambda>x. (x - m) * (x - m)) xs) / real (length xs - 1))"
    by (simp add: series_std_def Let_def m_def split: if_splits)
  ultimately show ?thesis by simp
qed

lemma volume_event_Some:
  assumes "volume_event ra dc (date, count) = Inr (Some ev)"
  shows "\<exists>expected sd. series_get ra date (Some (real count)) = Some expected \<and>
           series_std (map (\<lambda>dc. real (snd dc)) dc) = Some sd \<and> 0 < sd \<and>
           2 * sd < \<bar>real count - expected\<bar> \<and>
           ev = VolumeEvent date
                  (if expected < real count then ''high_activity'' else ''low_activity'')
                  (''Unusual '' @ replace_underscore
                     (if expected < real count then ''high_activity'' else ''low_activity'')
                   @ '' detected'')
                  (min (\<bar>real count - expected\<bar> / sd / 3) 1) count expected"
proof -
  obtain expected where 1: "series_get ra date (Some (real count)) = Some expected"
    using assms by (cases "series_get ra date (Some (real count))") (simp_all add: volume_event_def)
  obtain sd where 2: "series_std (map (\<lambda>dc. real (snd dc)) dc) = Some sd"
    using assms 1 by (cases "series_std (map (\<lambda>dc. real (snd dc)) dc)") (simp_all add: volume_event_def)
  have 3: "2 * sd < \<bar>real count - expected\<bar>"
    using assms 1 2 by (simp add: volume_event_def split: if_splits)
  have 4: "sd \<noteq> 0"
    using assms 1 2 3 by (auto simp add: volume_event_def fdiv_def Let_def)
  have 5: "0 < sd" using series_std_nonneg [OF 2] 4 by simp
  have "ev = VolumeEvent date
                  (if expected < real count then ''high_activity'' else ''low_activity'')
                  (''Unusual '' @ replace_underscore
                     (if expected < real count then ''high_activity'' else ''low_activity'')
                   @ '' detected'')
                  (min (\<bar>real count - expected\<bar> / sd / 3) 1) count expected"
    using assms 1 2 3 4 by (simp add: volume_event_def fdiv_def Let_def)
  with 1 2 3 5 show ?thesis by blast
qed

lemma sum_list_const: "\<forall>x\<in>set ys. x = m \<Longrightarrow> sum_list ys = real (length ys) * (m::real)"
  by (induction ys) (auto simp: algebra_simps)

lemma rolling_nth:
  assumes "i < length vs"
  shows "rolling_mean_centered w mp vs ! i =
     (let e = min (length vs) (i + 1 + (w - 1) div 2);
          s = (if w \<le> i + 1 + (w - 1) div 2 then i + 1 + (w - 1) div 2 - w else 0);
          nobs = e - s
      in if mp \<le> nobs \<and> 0 < nobs
         then Some (sum_list (take nobs (drop s vs)) / real nobs) else None)"
  using assms unfolding rolling_mean_centered_def by simp

lemma rolling_flat:
  assumes "\<forall>x\<in>set vs. x = m" and "i < length vs" and "rolling_mean_centered w mp vs ! i = Some b"
  shows "b = m"
proof -
  define e where "e = min (length vs) (i + 1 + (w - 1) div 2)"
  define s where "s = (if w \<le> i + 1 + (w - 1) div 2 then i + 1 + (w - 1) div 2 - w else 0)"
  from assms(3) have "(if mp \<le> e - s \<and> 0 < e - s
         then Some (sum_list (take (e - s) (drop s vs)) / real (e - s)) else None) = Some b"
    unfolding rolling_nth [OF assms(2)] Let_def e_def s_def by simp
  then have pos: "0 < e - s" and b: "b = sum_list (take (e - s) (drop s vs)) / real (e - s)"
    by (simp_all split: if_splits)
  have "\<forall>x\<in>set (take (e - s) (drop s vs)). x = m"
    using assms(1) by (meson in_set_dropD in_set_takeD)
  from sum_list_const [OF this]
  have "sum_list (take (e - s) (drop s vs)) = real (length (take (e - s) (drop s vs))) * m" .
  moreover have "e \<le> length vs" by (simp add: e_def)
  then have "length (take (e - s) (drop s vs)) = e - s" by simp
  ultimately show ?thesis using pos b by simp
qed

lemma rolling_7:
  assumes "i < length vs"
  shows "rolling_mean_centered 7 7 vs ! i =
     (if 3 \<le> i \<and> i + 3 < length vs then Some (sum_list (take 7 (drop (i - 3) vs)) / 7) else None)"
proof (cases "3 \<le> i \<and> i + 3 < length vs")
  case True
  then have e: "min (length vs) (i + 1 + (7 - 1) div 2) = i + 4" by simp
  from True have s: "(if 7 \<le> i + 1 + (7 - 1) div 2 then i + 1 + (7 - 1) div 2 - 7 else 0) = i - 3"
    by simp
  from True have n: "i + 4 - (i - 3) = 7" by simp
  show ?thesis
    unfolding rolling_nth [OF assms] Let_def e s n using True by simp
next
  case False
  then have "min (length vs) (i + 1 + (7 - 1) div 2)
      - (if 7 \<le> i + 1 + (7 - 1) div 2 then i + 1 + (7 - 1) div 2 - 7 else 0) < 7"
    using assms by (auto simp: min_def)
  then show ?thesis
    unfolding rolling_nth [OF assms] Let_def using False by simp
qed

lemma rolling_7_spec:
  assumes "i < length vs"
  shows "\<exists>b. rolling_mean_centered 7 1 vs ! i = Some b"
  unfolding rolling_nth [OF assms] Let_def using assms
  by (auto simp: min_def)

lemma volume_event_Inl:
  assumes "volume_event ra dc (date, count) = Inl e"
  shows "e = DivideByZero \<and> (\<exists>expected. series_get ra date (Some (real count)) = Some expected \<and>
           series_std (map (\<lambda>dc. real (snd dc)) dc) = Some 0 \<and> real count \<noteq> expected)"
  using assms
  by (auto simp: volume_event_def fdiv_def Let_def split: option.splits if_splits)

lemma volume_event_emit:
  assumes "series_get ra date (Some (real count)) = Some expected"
    and "series_std (map (\<lambda>dc. real (snd dc)) dc) = Some sd" and "2 * sd < \<bar>real count - expected\<bar>"
    and "sd \<noteq> 0"
  shows "\<exists>ev. volume_event ra dc (date, count) = Inr (Some ev) \<and> ev_date ev = date \<and> is_VolumeEvent ev"
  using assms by (auto simp: volume_event_def fdiv_def Let_def)

lemma series_std_zero_flat:
  assumes "series_std xs = Some 0" and "x \<in> set xs"
  shows "x = sum_list xs / real (length xs)"
proof -
  let ?m = "sum_list xs / real (length xs)"
  let ?sq = "map (\<lambda>x. (x - ?m) * (x - ?m)) xs"
  from assms(1) have n: "2 \<le> length xs"
    and s: "sqrt (sum_list ?sq / real (length xs - 1)) = 0"
    by (auto simp: series_std_def Let_def split: if_splits)
  from s n have "sum_list ?sq = 0" by auto
  moreover have "\<And>y. y \<in> set ?sq \<Longrightarrow> 0 \<le> y" by auto
  ultimately have "\<forall>y\<in>set ?sq. y = 0"
    by (simp only: sum_list_nonneg_eq_0_iff)
  with assms(2) show ?thesis by auto
qed


lemma daily_counts_keys: "map fst (daily_counts data) = sort (remdups (map (\<lambda>r. day (datetime r)) (rows data)))"
  by (simp add: daily_counts_def groupby_size_def comp_def)

lemma daily_counts_distinct: "distinct (map fst (daily_counts data))"
  by (simp add: daily_counts_keys)

lemma rolling_length: "length (rolling_mean_centered w mp vs) = length vs"
  by (simp add: rolling_mean_centered_def)

lemma rolling_avg_lookup:
  assumes "distinct (map fst dc)" and "i < length dc"
  shows "map_of (rolling_avg_of dc) (fst (dc ! i)) =
           Some (rolling_mean_centered 7 7 (map (\<lambda>dc. real (snd dc)) dc) ! i)"
proof -
  have "map_of (zip (map fst dc) (rolling_mean_centered 7 7 (map (\<lambda>dc. real (snd dc)) dc)))
          (map fst dc ! i) = Some (rolling_mean_centered 7 7 (map (\<lambda>dc. real (snd dc)) dc) ! i)"
    by (rule map_of_zip_nth) (use assms in \<open>simp_all add: rolling_length\<close>)
  then show ?thesis using assms(2) by (simp add: rolling_avg_of_def)
qed

lemma series_get_rolling:
  assumes "distinct (map fst dc)" and "i < length dc"
  shows "series_get (rolling_avg_of dc) (fst (dc ! i)) d =
           rolling_mean_centered 7 7 (map (\<lambda>dc. real (snd dc)) dc) ! i"
  by (simp add: series_get_def rolling_avg_lookup [OF assms])

lemma volume_event_no_error:
  assumes "distinct (map fst dc)" and "item \<in> set dc"
  shows "volume_event (rolling_avg_of dc) dc item \<noteq> Inl e"
proof
  assume a: "volume_event (rolling_avg_of dc) dc item = Inl e"
  obtain date count where item: "item = (date, count)" by (cases item)
  from assms(2) obtain i where i: "i < length dc" "dc ! i = item"
    by (auto simp: in_set_conv_nth)
  let ?vs = "map (\<lambda>dc. real (snd dc)) dc"
  from volume_event_Inl [OF a [unfolded item]] obtain expected where
    g: "series_get (rolling_avg_of dc) date (Some (real count)) = Some expected"
    and z: "series_std ?vs = Some 0" and ne: "real count \<noteq> expected" by blast
  from g i item have r: "rolling_mean_centered 7 7 ?vs ! i = Some expected"
    using series_get_rolling [OF assms(1) i(1), of "Some (real count)"] by simp
  have flat: "\<forall>x\<in>set ?vs. x = sum_list ?vs / real (length ?vs)"
    using series_std_zero_flat [OF z] by blast
  have "expected = sum_list ?vs / real (length ?vs)"
    by (rule rolling_flat [OF flat _ r]) (use i in simp)
  moreover have "real count \<in> set ?vs" using assms(2) item by force
  ultimately show False using flat ne by auto
qed

lemma volume_loop_total:
  assumes "distinct (map fst dc)" and "set items \<subseteq> set dc"
  shows "\<exists>vol. volume_loop (rolling_avg_of dc) dc acc items = Inr vol"
proof (cases "volume_loop (rolling_avg_of dc) dc acc items")
  case (Inl e)
  from volume_loop_Inl [OF this] assms(2) volume_event_no_error [OF assms(1)]
  show ?thesis by blast
next
  case (Inr vol)
  then show ?thesis by blast
qed

lemma detect_travel_kind:
  "detect_travel_patterns data = Inr travel \<Longrightarrow> list_all is_TravelEvent travel"
  using detect_travel_patterns_eq travel_events_kind by blast

lemma get_series_rows:
  "get_series dup data name f = Inr xs \<Longrightarrow> xs = map f (rows data)"
  by (simp add: get_series_def split: if_splits)

lemma rows_set_column [simp]: "rows (set_column data name) = rows data"
  by (simp add: set_column_def)

lemma detect_life_events_small:
  "df_empty data \<or> length (rows data) < 10 \<Longrightarrow> detect_life_events data = Inr ([], data)"
  by (simp add: detect_life_events_def)

lemma detect_life_events_cases:
  assumes "detect_life_events data = Inr (events, data')"
    and "\<not> df_empty data" and "10 \<le> length (rows data)"
  shows "\<exists>vol travel. volume_loop (rolling_avg_of (daily_counts data)) (daily_counts data) []
             (daily_counts data) = Inr vol \<and>
           list_all is_TravelEvent travel \<and> events = sort_key ev_date (vol @ travel)"
proof -
  define data1 where "data1 = (if ''datetime'' \<notin> set (columns data) \<and> ''timestamp'' \<in> set (columns data)
     then set_column data ''datetime'' else data)"
  have r1: "rows data1 = rows data" by (simp add: data1_def)
  define data2 where "data2 = set_column data1 ''date''"
  define dc where "dc = daily_counts data"
  have pre: "(if ''datetime'' \<notin> set (columns data) \<and> ''timestamp'' \<in> set (columns data)
               then (case get_series ValueError data ''timestamp'' datetime of
                       Inl e \<Rightarrow> Inl e
                     | Inr ts \<Rightarrow> Inr (set_column data ''datetime''))
               else Inr data) = Inr data1"
    using assms by (auto simp: detect_life_events_def data1_def split: if_splits sum.splits)
  obtain dts where dts: "get_series AttributeError data1 ''datetime'' datetime = Inr dts"
    using assms pre by (cases "get_series AttributeError data1 ''datetime'' datetime")
      (simp_all add: detect_life_events_def)
  have dcs: "groupby_size (map day dts) = dc"
    using get_series_rows [OF dts] r1 by (simp add: dc_def daily_counts_def comp_def)
  obtain vol where vol: "volume_loop (rolling_avg_of dc) dc [] dc = Inr vol"
    using volume_loop_total [of dc dc "[]"] daily_counts_distinct [of data] by (auto simp: dc_def)
  from assms(1) have ev: "(if ''predicted_activity'' \<in> set (columns data2)
                            then (case detect_travel_patterns data2 of
                                    Inl e \<Rightarrow> Inl e
                                  | Inr travel \<Rightarrow> Inr (sort_key ev_date (vol @ travel), data2))
                            else Inr (sort_key ev_date vol, data2)) = Inr (events, data')"
    using assms(2,3) pre dts dcs vol
    by (simp add: detect_life_events_def Let_def data2_def [symmetric] split: if_splits)
  show ?thesis
  proof (cases "''predicted_activity'' \<in> set (columns data2)")
    case True
    with ev obtain travel where t: "detect_travel_patterns data2 = Inr travel"
      and e: "events = sort_key ev_date (vol @ travel)"
      by (auto split: sum.splits)
    with vol detect_travel_kind [OF t] show ?thesis unfolding dc_def by blast
  next
    case False
    with ev have "events = sort_key ev_date (vol @ [])" by simp
    with vol have "volume_loop (rolling_avg_of dc) dc [] dc = Inr vol \<and>
        list_all is_TravelEvent [] \<and> events = sort_key ev_date (vol @ [])" by simp
    then show ?thesis unfolding dc_def by blast
  qed
qed

lemma work_simps [simp]:
  "day (datetime (work d)) = 738885 + int d" "predicted_activity (work d) = ''Work''"
  by (simp_all add: work_def jan_def)

lemma no_travel:
  assumes "\<forall>r\<in>set (rows data). predicted_activity r \<noteq> ''Travel''"
    and "count_list (columns data) ''predicted_activity'' = 1"
  shows "detect_travel_patterns data = Inr []"
proof -
  have "filter (\<lambda>l. l = ''Travel'') (map predicted_activity (rows data)) = []"
    using assms(1) by (induction "rows data") (auto simp: filter_empty_conv)
  moreover have "''predicted_activity'' \<in> set (columns data)"
    using assms(2) by (metis count_list_0_iff zero_neq_one)
  ultimately show ?thesis using assms(2)
    by (simp add: detect_travel_patterns_def get_series_def)
qed

lemma spike_rows: "length (rows spike_frame) = 12"
  by (simp add: spike_frame_def)

lemma spike_counts:
  "daily_counts spike_frame =
     [(738886, 1), (738887, 1), (738888, 1), (738889, 1), (738890, 4), (738891, 1),
      (738892, 1), (738893, 1), (738894, 1)]"
  by (simp add: daily_counts_def groupby_size_def spike_frame_def)

lemma skew_counts:
  "daily_counts skew_frame =
     [(738886, 1), (738887, 1), (738888, 1), (738889, 8), (738890, 4), (738891, 4),
      (738892, 1)]"
  by (simp add: daily_counts_def groupby_size_def skew_frame_def)

lemma upt_9: "[0..<9] = [0, 1, 2, 3, 4, 5, 6, 7, 8::nat]"
  by code_simp

lemma upt_7: "[0..<7] = [0, 1, 2, 3, 4, 5, 6::nat]"
  by code_simp

lemma upt_10: "[0..<10] = [0, 1, 2, 3, 4, 5, 6, 7, 8, 9::nat]"
  by code_simp

lemma spike_rolling:
  "rolling_avg_of (daily_counts spike_frame) =
     [(738886, None), (738887, None), (738888, None), (738889, Some (10 / 7)),
      (738890, Some (10 / 7)), (738891, Some (10 / 7)),
      (738892, None), (738893, None), (738894, None)]"
  unfolding spike_counts
  by (simp add: rolling_avg_of_def rolling_mean_centered_def Let_def upt_9)

lemma spike_std:
  "series_std (map (\<lambda>dc. real (snd dc)) (daily_counts spike_frame)) = Some 1"
  unfolding spike_counts
  by (simp add: series_std_def Let_def)

lemma volume_event_eval:
  assumes "series_std (map (\<lambda>dc. real (snd dc)) dc) = Some sd" and "sd \<noteq> 0"
  shows "volume_event ra dc (date, count) =
     (case series_get ra date (Some (real count)) of
        None \<Rightarrow> Inr None
      | Some expected \<Rightarrow>
          if 2 * sd < \<bar>real count - expected\<bar>
          then Inr (Some (VolumeEvent date
                 (if expected < real count then ''high_activity'' else ''low_activity'')
                 (''Unusual '' @ replace_underscore
                    (if expected < real count then ''high_activity'' else ''low_activity'')
                  @ '' detected'')
                 (min (\<bar>real count - expected\<bar> / sd / 3) 1) count expected))
          else Inr None)"
  using assms by (simp add: volume_event_def fdiv_def Let_def split: option.splits)

lemma spike_loop:
  "volume_loop (rolling_avg_of (daily_counts spike_frame)) (daily_counts spike_frame) []
     (daily_counts spike_frame) =
   Inr [VolumeEvent 738890 ''high_activity'' ''Unusual high activity detected'' (6 / 7) 4 (10 / 7)]"
proof -
  have "volume_loop
     [(738886, None), (738887, None), (738888, None), (738889, Some (10 / 7)),
      (738890, Some (10 / 7)), (738891, Some (10 / 7)),
      (738892, None), (738893, None), (738894, None)] dc []
     [(738886, 1), (738887, 1), (738888, 1), (738889, 1), (738890, 4), (738891, 1),
      (738892, 1), (738893, 1), (738894, 1)] =
   Inr [VolumeEvent 738890 ''high_activity'' ''Unusual high activity detected'' (6 / 7) 4 (10 / 7)]"
    if "series_std (map (\<lambda>dc. real (snd dc)) dc) = Some 1" for dc
    by (simp add: volume_event_eval [where sd = 1, OF that] series_get_def replace_underscore_def)
  from this [OF spike_std] show ?thesis
    unfolding spike_rolling by (simp only: spike_counts)
qed

lemma spike_events:
  "detect_life_events spike_frame =
     Inr ([VolumeEvent 738890 ''high_activity'' ''Unusual high activity detected'' (6 / 7) 4 (10 / 7)],
          spike_frame\<lparr>columns := [''datetime'', ''predicted_activity'', ''date'']\<rparr>)"
proof -
  have c: "columns spike_frame = [''datetime'', ''predicted_activity'']"
    by (simp add: spike_frame_def)
  have g: "groupby_size (map (day \<circ> datetime) (rows spike_frame)) = daily_counts spike_frame"
    by (simp add: daily_counts_def comp_def)
  have ne: "rows spike_frame \<noteq> []" by (simp add: spike_frame_def)
  have t: "detect_travel_patterns (spike_frame\<lparr>columns := [''datetime'', ''predicted_activity'', ''date'']\<rparr>) = Inr []"
    by (rule no_travel) (simp_all add: spike_frame_def)
  show ?thesis
    unfolding detect_life_events_def
    by (simp add: df_empty_def spike_rows c get_series_def g ne spike_loop t Let_def set_column_def)
qed

lemma detect_life_events_volume:
  assumes "detect_life_events data = Inr (events, data')"
    and "e \<in> set events" and "is_VolumeEvent e"
  shows "\<exists>date count. (date, count) \<in> set (daily_counts data) \<and>
           volume_event (rolling_avg_of (daily_counts data)) (daily_counts data) (date, count)
             = Inr (Some e)"
proof (cases "df_empty data \<or> length (rows data) < 10")
  case True
  from detect_life_events_small [OF this] assms(1,2) show ?thesis by simp
next
  case False
  then obtain vol travel where
    vol: "volume_loop (rolling_avg_of (daily_counts data)) (daily_counts data) []
             (daily_counts data) = Inr vol"
    and tr: "list_all is_TravelEvent travel" and ev: "events = sort_key ev_date (vol @ travel)"
    using detect_life_events_cases [OF assms(1)] by force
  from assms(2) ev have "e \<in> set vol \<or> e \<in> set travel" by auto
  moreover have "e \<notin> set travel"
    using tr assms(3) by (auto simp: list_all_iff life_event.disc_eq_case split: life_event.splits)
  ultimately have "e \<in> set vol" by simp
  with volume_loop_set [OF vol] show ?thesis by auto
qed

lemma detect_life_events_emitted:
  assumes "detect_life_events data = Inr (events, data')"
    and "\<not> df_empty data" and "10 \<le> length (rows data)"
    and "item \<in> set (daily_counts data)"
    and "volume_event (rolling_avg_of (daily_counts data)) (daily_counts data) item = Inr (Some e)"
  shows "e \<in> set events"
proof -
  obtain vol travel where
    vol: "volume_loop (rolling_avg_of (daily_counts data)) (daily_counts data) []
             (daily_counts data) = Inr vol"
    and ev: "events = sort_key ev_date (vol @ travel)"
    using detect_life_events_cases [OF assms(1,2,3)] by force
  from volume_loop_set [OF vol] assms(4,5) have "e \<in> set vol" by auto
  with ev show ?thesis by simp
qed

text \<open>
  In exact arithmetic the test of the loop is the only condition: a date with a
  baseline has a record exactly when its count is further from the baseline than
  twice the standard deviation of all counts.
\<close>

lemma volume_anomaly_exact:
  assumes "detect_life_events data = Inr (events, data')"
    and "\<not> df_empty data" and "10 \<le> length (rows data)"
    and "(date, count) \<in> set (daily_counts data)"
    and "map_of (rolling_avg_of (daily_counts data)) date = Some (Some expected)"
  shows "\<exists>sd. series_std (counts_series (daily_counts data)) = Some sd \<and>
      ((\<exists>e\<in>set events. is_VolumeEvent e \<and> ev_date e = date)
         \<longleftrightarrow> 2 * sd < \<bar>real count - expected\<bar>) \<and>
      (\<forall>e\<in>set events. is_VolumeEvent e \<and> ev_date e = date \<longrightarrow>
         ev_type e = (if expected < real count then ''high_activity'' else ''low_activity'') \<and>
         activity_count e = count \<and> expected_count e = expected)"
proof -
  let ?dc = "daily_counts data"
  let ?ra = "rolling_avg_of ?dc"
  have dist: "distinct (map fst ?dc)" by (rule daily_counts_distinct)
  have get: "series_get ?ra date d = Some expected" for d
    by (simp add: series_get_def assms(5))
  from assms(4) obtain i where i: "i < length ?dc" "?dc ! i = (date, count)"
    by (auto simp: in_set_conv_nth)
  have "rolling_mean_centered 7 7 (map (\<lambda>dc. real (snd dc)) ?dc) ! i = Some expected"
    using rolling_avg_lookup [OF dist i(1)] i(2) assms(5) by simp
  then have "3 \<le> i \<and> i + 3 < length ?dc"
    using rolling_7 [of i "map (\<lambda>dc. real (snd dc)) ?dc"] i(1) by (simp split: if_splits)
  then have "\<not> length (map (\<lambda>dc. real (snd dc)) ?dc) < 2" by simp
  then obtain sd where sd: "series_std (map (\<lambda>dc. real (snd dc)) ?dc) = Some sd"
    by (auto simp: series_std_def Let_def)
  have only: "ev_type e = (if expected < real count then ''high_activity'' else ''low_activity'')
        \<and> activity_count e = count \<and> expected_count e = expected
        \<and> 2 * sd < \<bar>real count - expected\<bar>"
    if e: "e \<in> set events" "is_VolumeEvent e" "ev_date e = date" for e
  proof -
    from detect_life_events_volume [OF assms(1) e(1,2)] obtain d' c' where
      m: "(d', c') \<in> set ?dc" and v: "volume_event ?ra ?dc (d', c') = Inr (Some e)" by blast
    from volume_event_Some [OF v] obtain ex s where
      g: "series_get ?ra d' (Some (real c')) = Some ex"
      and s: "series_std (map (\<lambda>dc. real (snd dc)) ?dc) = Some s"
      and lt: "2 * s < \<bar>real c' - ex\<bar>"
      and eq: "e = VolumeEvent d'
                  (if ex < real c' then ''high_activity'' else ''low_activity'')
                  (''Unusual '' @ replace_underscore
                     (if ex < real c' then ''high_activity'' else ''low_activity'')
                   @ '' detected'')
                  (min (\<bar>real c' - ex\<bar> / s / 3) 1) c' ex" by blast
    from eq e(3) have d: "d' = date" by simp
    with m assms(4) dist have c: "c' = count" by (metis eq_key_imp_eq_value)
    from g d get have x: "ex = expected" by simp
    from s sd have "s = sd" by simp
    with eq d c x lt show ?thesis by simp
  qed
  have emit: "\<exists>e\<in>set events. is_VolumeEvent e \<and> ev_date e = date"
    if lt: "2 * sd < \<bar>real count - expected\<bar>"
  proof -
    have "sd \<noteq> 0"
    proof
      assume "sd = 0"
      with sd lt get have "volume_event ?ra ?dc (date, count) = Inl DivideByZero"
        by (simp add: volume_event_def fdiv_def)
      with volume_event_no_error [OF dist assms(4), of DivideByZero] show False by blast
    qed
    from volume_event_emit [OF get sd lt this] obtain ev where
      "volume_event ?ra ?dc (date, count) = Inr (Some ev)" "ev_date ev = date" "is_VolumeEvent ev"
      by blast
    with detect_life_events_emitted [OF assms(1,2,3,4)] show ?thesis by blast
  qed
  from sd only emit show ?thesis unfolding counts_series_def by blast
qed

text \<open>
  C1, as amended. On a frame of at least ten rows, for every date of the series of
  daily counts whose rolling baseline is defined: an anomaly record is in the
  result when the day's count differs from the baseline by more than twice the
  standard deviation of the whole series of counts, and none is when it differs by
  less, up to the rounding margin on either side. The standard deviation is the
  sample one (divisor \<open>n - 1\<close>, as \<^verbatim>\<open>Series.std()\<close> computes it), taken
  over the whole series. The record is of type \<^verbatim>\<open>high_activity\<close> when the
  count is above the baseline and \<^verbatim>\<open>low_activity\<close> otherwise.
\<close>

theorem volume_anomaly_threshold:
  assumes "detect_life_events data = Inr (events, data')"
    and "\<not> df_empty data" and "10 \<le> length (rows data)"
    and "(date, count) \<in> set (daily_counts data)"
    and "map_of (rolling_avg_of (daily_counts data)) date = Some (Some expected)"
  shows "\<exists>sd. series_std (counts_series (daily_counts data)) = Some sd \<and>
      (2 * sd * (1 + rounding_margin) < \<bar>real count - expected\<bar> \<longrightarrow>
         (\<exists>e\<in>set events. is_VolumeEvent e \<and> ev_date e = date)) \<and>
      (\<bar>real count - expected\<bar> < 2 * sd * (1 - rounding_margin) \<longrightarrow>
         \<not> (\<exists>e\<in>set events. is_VolumeEvent e \<and> ev_date e = date)) \<and>
      (\<forall>e\<in>set events. is_VolumeEvent e \<and> ev_date e = date \<longrightarrow>
         ev_type e = (if expected < real count then ''high_activity'' else ''low_activity'') \<and>
         activity_count e = count)"
proof -
  from volume_anomaly_exact [OF assms] obtain sd where
    sd: "series_std (counts_series (daily_counts data)) = Some sd"
    and iff: "(\<exists>e\<in>set events. is_VolumeEvent e \<and> ev_date e = date)
         \<longleftrightarrow> 2 * sd < \<bar>real count - expected\<bar>"
    and kind: "\<forall>e\<in>set events. is_VolumeEvent e \<and> ev_date e = date \<longrightarrow>
         ev_type e = (if expected < real count then ''high_activity'' else ''low_activity'') \<and>
         activity_count e = count \<and> expected_count e = expected"
    by blast
  have nonneg: "0 \<le> sd" using series_std_nonneg sd by blast
  have up: "2 * sd \<le> 2 * sd * (1 + rounding_margin)"
    using nonneg by (simp add: rounding_margin_def algebra_simps)
  have down: "2 * sd * (1 - rounding_margin) \<le> 2 * sd"
    using nonneg by (simp add: rounding_margin_def algebra_simps)
  have 1: "\<exists>e\<in>set events. is_VolumeEvent e \<and> ev_date e = date"
    if "2 * sd * (1 + rounding_margin) < \<bar>real count - expected\<bar>"
    using that up iff by linarith
  have 2: "\<not> (\<exists>e\<in>set events. is_VolumeEvent e \<and> ev_date e = date)"
    if "\<bar>real count - expected\<bar> < 2 * sd * (1 - rounding_margin)"
    using that down iff by linarith
  from sd 1 2 kind show ?thesis by blast
qed

text \<open>
  C9. Every anomaly record that \<^verbatim>\<open>detect_life_events\<close> returns has a confidence
  above 2/3 and at most 1.
\<close>

theorem anomaly_confidence_range:
  assumes "detect_life_events data = Inr (events, data')"
  shows "\<forall>e\<in>set events. is_VolumeEvent e \<longrightarrow> 2 / 3 < ev_confidence e \<and> ev_confidence e \<le> 1"
proof (intro ballI impI)
  fix e assume e: "e \<in> set events" "is_VolumeEvent e"
  from detect_life_events_volume [OF assms e] obtain d c where
    v: "volume_event (rolling_avg_of (daily_counts data)) (daily_counts data) (d, c) = Inr (Some e)"
    by blast
  from volume_event_Some [OF v] obtain ex s where
    pos: "0 < s" and lt: "2 * s < \<bar>real c - ex\<bar>"
      and eq: "e = VolumeEvent d
                  (if ex < real c then ''high_activity'' else ''low_activity'')
                  (''Unusual '' @ replace_underscore
                     (if ex < real c then ''high_activity'' else ''low_activity'')
                   @ '' detected'')
                  (min (\<bar>real c - ex\<bar> / s / 3) 1) c ex" by blast
  from pos lt have "2 < \<bar>real c - ex\<bar> / s" by (simp add: pos_less_divide_eq)
  then have "2 / 3 < \<bar>real c - ex\<bar> / s / 3" by simp
  with eq show "2 / 3 < ev_confidence e \<and> ev_confidence e \<le> 1" by simp
qed

lemma detect_life_events_error:
  assumes "detect_life_events data = Inl e"
  shows "e \<in> {KeyError, AttributeError, ValueError}"
proof -
  have gs: "get_series dup d n f = Inl x \<Longrightarrow> x = KeyError \<or> x = dup" for dup d n x and f :: "row \<Rightarrow> 'a"
    by (auto simp: get_series_def split: if_splits)
  have tr: "detect_travel_patterns d = Inl x \<Longrightarrow>
      x = KeyError \<or> x = AttributeError \<or> x = ValueError" for d x
    by (auto simp: detect_travel_patterns_def split: sum.splits if_splits dest: gs)
  define data1 where "data1 = (if ''datetime'' \<notin> set (columns data) \<and> ''timestamp'' \<in> set (columns data)
     then set_column data ''datetime'' else data)"
  have r1: "rows data1 = rows data" by (simp add: data1_def)
  from assms have big: "\<not> (df_empty data \<or> length (rows data) < 10)"
    by (auto simp: detect_life_events_def)
  show ?thesis
  proof (cases "''datetime'' \<notin> set (columns data) \<and> ''timestamp'' \<in> set (columns data) \<and>
                 (\<exists>x. get_series ValueError data ''timestamp'' datetime = Inl x)")
    case True
    then obtain x where x: "get_series ValueError data ''timestamp'' datetime = Inl x" by blast
    with True assms big have "e = x" by (simp add: detect_life_events_def)
    with gs [OF x] show ?thesis by auto
  next
    case False
    then have pre: "(if ''datetime'' \<notin> set (columns data) \<and> ''timestamp'' \<in> set (columns data)
               then (case get_series ValueError data ''timestamp'' datetime of
                       Inl e \<Rightarrow> Inl e
                     | Inr ts \<Rightarrow> Inr (set_column data ''datetime''))
               else Inr data) = Inr data1"
      by (auto simp: data1_def split: sum.splits)
    show ?thesis
    proof (cases "get_series AttributeError data1 ''datetime'' datetime")
      case (Inl x)
      with assms big pre have "e = x" by (simp add: detect_life_events_def)
      with gs [OF Inl] show ?thesis by auto
    next
      case (Inr dts)
      have dcs: "groupby_size (map day dts) = daily_counts data"
        using get_series_rows [OF Inr] r1 by (simp add: daily_counts_def comp_def)
      obtain vol where vol: "volume_loop (rolling_avg_of (daily_counts data)) (daily_counts data) []
           (daily_counts data) = Inr vol"
        using volume_loop_total [of "daily_counts data" "daily_counts data" "[]"]
          daily_counts_distinct [of data] by auto
      show ?thesis
      proof (cases "1 < count_list (columns (set_column data1 ''date'')) ''date''")
        case True
        with assms big pre Inr have "e = ValueError"
          by (simp add: detect_life_events_def Let_def)
        then show ?thesis by simp
      next
        case False
        with assms big pre Inr dcs vol
        have "detect_travel_patterns (set_column data1 ''date'') = Inl e"
          by (simp add: detect_life_events_def Let_def split: if_splits sum.splits)
        from tr [OF this] show ?thesis by auto
      qed
    qed
  qed
qed

text \<open>
  C6. \<^verbatim>\<open>detect_life_events\<close> never divides by a zero standard deviation, and when
  the standard deviation of the daily counts is 0 its result has no anomaly record.
\<close>

theorem zero_std_no_anomaly:
  "detect_life_events data \<noteq> Inl DivideByZero \<and>
   (series_std (counts_series (daily_counts data)) = Some 0 \<longrightarrow>
    detect_life_events data = Inr (events, data') \<longrightarrow>
    (\<forall>e\<in>set events. \<not> is_VolumeEvent e))"
proof -
  have "detect_life_events data \<noteq> Inl DivideByZero"
    using detect_life_events_error [of data DivideByZero] by auto
  moreover have "\<not> is_VolumeEvent e"
    if z: "series_std (counts_series (daily_counts data)) = Some 0"
      and d: "detect_life_events data = Inr (events, data')" and e: "e \<in> set events" for e
  proof
    assume "is_VolumeEvent e"
    from detect_life_events_volume [OF d e this] obtain dt c where
      v: "volume_event (rolling_avg_of (daily_counts data)) (daily_counts data) (dt, c) = Inr (Some e)"
      by blast
    from volume_event_Some [OF v] z show False by (auto simp: counts_series_def)
  qed
  ultimately show ?thesis by blast
qed

text \<open>
  C2, as amended. The baseline of the \<open>i\<close>-th date of the series of daily counts is
  the mean of the seven counts at positions \<open>i - 3\<close> to \<open>i + 3\<close> of the series when
  all seven exist, and is missing otherwise (the first three and the last three
  dates, and every date of a series shorter than seven). A date with a missing
  baseline has no anomaly record.
\<close>

theorem rolling_baseline_window:
  "(i < length (daily_counts data) \<longrightarrow>
      map_of (rolling_avg_of (daily_counts data)) (fst (daily_counts data ! i)) =
        Some (if 3 \<le> i \<and> i + 3 < length (daily_counts data)
              then Some (sum_list (take 7 (drop (i - 3) (counts_series (daily_counts data)))) / 7)
              else None)) \<and>
   (detect_life_events data = Inr (events, data') \<longrightarrow>
      map_of (rolling_avg_of (daily_counts data)) date = Some None \<longrightarrow>
      (\<forall>e\<in>set events. is_VolumeEvent e \<longrightarrow> ev_date e \<noteq> date))"
proof (intro conjI impI ballI)
  assume i: "i < length (daily_counts data)"
  show "map_of (rolling_avg_of (daily_counts data)) (fst (daily_counts data ! i)) =
        Some (if 3 \<le> i \<and> i + 3 < length (daily_counts data)
              then Some (sum_list (take 7 (drop (i - 3) (counts_series (daily_counts data)))) / 7)
              else None)"
    using rolling_avg_lookup [OF daily_counts_distinct i]
      rolling_7 [of i "map (\<lambda>dc. real (snd dc)) (daily_counts data)"] i
    by (simp add: counts_series_def)
next
  fix e
  assume d: "detect_life_events data = Inr (events, data')"
    and n: "map_of (rolling_avg_of (daily_counts data)) date = Some None"
    and e: "e \<in> set events" "is_VolumeEvent e"
  from detect_life_events_volume [OF d e] obtain dt c where
    v: "volume_event (rolling_avg_of (daily_counts data)) (daily_counts data) (dt, c) = Inr (Some e)"
    by blast
  from volume_event_Some [OF v] obtain ex where
    g: "series_get (rolling_avg_of (daily_counts data)) dt (Some (real c)) = Some ex"
    and dt: "ev_date e = dt" by auto
  show "ev_date e \<noteq> date"
  proof
    assume "ev_date e = date"
    with dt g n show False by (simp add: series_get_def)
  qed
qed

lemma detect_life_events_eval:
  assumes c: "columns data = [''datetime'', ''predicted_activity'']"
    and n: "10 \<le> length (rows data)"
    and t: "\<forall>r\<in>set (rows data). predicted_activity r \<noteq> ''Travel''"
    and v: "volume_loop (rolling_avg_of (daily_counts data)) (daily_counts data) []
              (daily_counts data) = Inr vol"
  shows "detect_life_events data =
           Inr (sort_key ev_date vol,
                data\<lparr>columns := [''datetime'', ''predicted_activity'', ''date'']\<rparr>)"
proof -
  have g: "groupby_size (map (day \<circ> datetime) (rows data)) = daily_counts data"
    by (simp add: daily_counts_def comp_def)
  have ne: "rows data \<noteq> []" using n by auto
  have n': "\<not> length (rows data) < 10" using n by simp
  have t: "detect_travel_patterns (data\<lparr>columns := [''datetime'', ''predicted_activity'', ''date'']\<rparr>) = Inr []"
    by (rule no_travel) (use t in simp_all)
  show ?thesis
    unfolding detect_life_events_def
    by (simp add: df_empty_def n' c get_series_def g ne v t Let_def set_column_def)
qed

lemma skew_rolling:
  "rolling_avg_of (daily_counts skew_frame) =
     [(738886, None), (738887, None), (738888, None), (738889, Some (20 / 7)),
      (738890, None), (738891, None), (738892, None)]"
  unfolding skew_counts
  by (simp add: rolling_avg_of_def rolling_mean_centered_def Let_def upt_7)

lemma skew_std:
  "series_std (map (\<lambda>dc. real (snd dc)) (daily_counts skew_frame)) = Some (sqrt (50 / 7))"
  unfolding skew_counts
  by (simp add: series_std_def Let_def)

lemma skew_population_std:
  "spec_population_std (counts_series (daily_counts skew_frame)) = Some (sqrt (300 / 49))"
  unfolding skew_counts
  by (simp add: spec_population_std_def counts_series_def Let_def)

lemma skew_sample_bound: "\<not> 2 * sqrt (50 / 7) < \<bar>real 8 - 20 / 7\<bar>"
proof -
  have "(18 / 7 :: real)\<^sup>2 \<le> 50 / 7" by (simp add: power2_eq_square)
  then have "18 / 7 \<le> sqrt (50 / 7)" by (rule real_le_rsqrt)
  then show ?thesis by simp
qed

lemma skew_population_bound: "2 * sqrt (300 / 49) < \<bar>real 8 - 20 / 7\<bar>"
proof -
  have "sqrt (300 / 49) < 18 / 7"
    by (rule real_less_lsqrt) (simp_all add: power2_eq_square)
  then show ?thesis by simp
qed

lemma skew_loop:
  "volume_loop (rolling_avg_of (daily_counts skew_frame)) (daily_counts skew_frame) []
     (daily_counts skew_frame) = Inr []"
proof -
  have "volume_loop
     [(738886, None), (738887, None), (738888, None), (738889, Some (20 / 7)),
      (738890, None), (738891, None), (738892, None)] dc []
     [(738886, 1), (738887, 1), (738888, 1), (738889, 8), (738890, 4), (738891, 4),
      (738892, 1)] = Inr []"
    if "series_std (map (\<lambda>dc. real (snd dc)) dc) = Some sd" and "sd \<noteq> 0"
      and "\<not> 2 * sd < \<bar>real 8 - 20 / 7\<bar>" for dc sd
    using that(3)
    by (simp add: volume_event_eval [where sd = sd, OF that(1,2)] series_get_def)
  from this [OF skew_std _ skew_sample_bound] show ?thesis
    unfolding skew_rolling by (simp only: skew_counts) simp
qed

lemma skew_events:
  "detect_life_events skew_frame =
     Inr ([], skew_frame\<lparr>columns := [''datetime'', ''predicted_activity'', ''date'']\<rparr>)"
  using detect_life_events_eval [OF _ _ _ skew_loop] by (simp add: skew_frame_def)

lemma skew_margins:
  "2 * sqrt (300 / 49) * (1 + rounding_margin) < \<bar>real 8 - 20 / 7\<bar> \<and>
   \<bar>real 8 - 20 / 7\<bar> < 2 * sqrt (50 / 7) * (1 - rounding_margin)"
proof -
  have "sqrt (300 / 49) < 5 / 2"
    by (rule real_less_lsqrt) (simp_all add: power2_eq_square)
  then have "2 * sqrt (300 / 49) * (1 + rounding_margin) < 5 * (1 + rounding_margin)"
    by (simp add: rounding_margin_def)
  moreover have "5 * (1 + rounding_margin) < \<bar>real 8 - 20 / 7\<bar>"
    by (simp add: rounding_margin_def)
  moreover have "(13 / 5 :: real)\<^sup>2 < 50 / 7" by (simp add: power2_eq_square)
  then have "13 / 5 < sqrt (50 / 7)" by (rule real_less_rsqrt)
  then have "2 * (13 / 5) * (1 - rounding_margin) < 2 * sqrt (50 / 7) * (1 - rounding_margin)"
    by (simp add: rounding_margin_def)
  moreover have "\<bar>real 8 - 20 / 7\<bar> < 2 * (13 / 5) * (1 - rounding_margin)"
    by (simp add: rounding_margin_def)
  ultimately show ?thesis by linarith
qed

text \<open>
  C1 as stated fails on the week of counts 1, 1, 1, 8, 4, 4, 1: the count 8 of
  4 January is further from its baseline 20/7 than twice the population standard
  deviation of the counts, and no record is returned. The margins are wide: the
  distance is more than the rounding margin above twice the population value and
  more than the rounding margin below twice the sample value.
\<close>

theorem population_std_counterexample:
  "detect_life_events skew_frame =
     Inr ([], skew_frame\<lparr>columns := [''datetime'', ''predicted_activity'', ''date'']\<rparr>) \<and>
   (738889, 8) \<in> set (daily_counts skew_frame) \<and>
   map_of (rolling_avg_of (daily_counts skew_frame)) 738889 = Some (Some (20 / 7)) \<and>
   spec_population_std (counts_series (daily_counts skew_frame)) = Some (sqrt (300 / 49)) \<and>
   2 * sqrt (300 / 49) < \<bar>real 8 - 20 / 7\<bar> \<and>
   2 * sqrt (300 / 49) * (1 + rounding_margin) < \<bar>real 8 - 20 / 7\<bar> \<and>
   \<bar>real 8 - 20 / 7\<bar> < 2 * sqrt (50 / 7) * (1 - rounding_margin)"
  using skew_events skew_population_std skew_population_bound skew_margins
  by (simp add: skew_rolling) (simp add: skew_counts)

lemma flat_counts:
  "daily_counts flat_frame =
     [(738886, 1), (738887, 1), (738888, 1), (738889, 1), (738890, 1), (738891, 1),
      (738892, 1), (738893, 1), (738894, 1), (738895, 1)]"
  by (simp add: daily_counts_def groupby_size_def flat_frame_def)

lemma flat_std: "series_std (counts_series (daily_counts flat_frame)) = Some 0"
  unfolding flat_counts by (simp add: series_std_def counts_series_def Let_def)

lemma flat_rolling:
  "rolling_avg_of (daily_counts flat_frame) =
     [(738886, None), (738887, None), (738888, None), (738889, Some 1),
      (738890, Some 1), (738891, Some 1), (738892, Some 1),
      (738893, None), (738894, None), (738895, None)]"
  unfolding flat_counts
  by (simp add: rolling_avg_of_def rolling_mean_centered_def Let_def upt_10)

lemma flat_loop:
  "volume_loop (rolling_avg_of (daily_counts flat_frame)) (daily_counts flat_frame) []
     (daily_counts flat_frame) = Inr []"
proof -
  have "volume_loop
     [(738886, None), (738887, None), (738888, None), (738889, Some 1),
      (738890, Some 1), (738891, Some 1), (738892, Some 1),
      (738893, None), (738894, None), (738895, None)] dc []
     [(738886, 1), (738887, 1), (738888, 1), (738889, 1), (738890, 1), (738891, 1),
      (738892, 1), (738893, 1), (738894, 1), (738895, 1)] = Inr []"
    if "series_std (map (\<lambda>dc. real (snd dc)) dc) = Some 0" for dc
    using that by (simp add: volume_event_def series_get_def)
  from this [OF flat_std [unfolded counts_series_def]] show ?thesis
    unfolding flat_rolling by (simp only: flat_counts)
qed

lemma flat_events:
  "detect_life_events flat_frame =
     Inr ([], flat_frame\<lparr>columns := [''datetime'', ''predicted_activity'', ''date'']\<rparr>)"
  using detect_life_events_eval [OF _ _ _ flat_loop] by (simp add: flat_frame_def)

theorem zero_std_no_anomaly_witness:
  "series_std (counts_series (daily_counts flat_frame)) = Some 0 \<and>
   detect_life_events flat_frame =
     Inr ([], flat_frame\<lparr>columns := [''datetime'', ''predicted_activity'', ''date'']\<rparr>) \<and>
   detect_life_events flat_frame \<noteq> Inl DivideByZero"
  using zero_std_no_anomaly [of flat_frame "[]"
      "flat_frame\<lparr>columns := [''datetime'', ''predicted_activity'', ''date'']\<rparr>"]
    flat_std flat_events by simp

theorem volume_anomaly_threshold_witness:
  "detect_life_events spike_frame =
     Inr ([VolumeEvent 738890 ''high_activity'' ''Unusual high activity detected'' (6 / 7) 4 (10 / 7)],
          spike_frame\<lparr>columns := [''datetime'', ''predicted_activity'', ''date'']\<rparr>) \<and>
   (738890, 4) \<in> set (daily_counts spike_frame) \<and>
   map_of (rolling_avg_of (daily_counts spike_frame)) 738890 = Some (Some (10 / 7)) \<and>
   series_std (counts_series (daily_counts spike_frame)) = Some 1 \<and>
   2 * 1 * (1 + rounding_margin) < \<bar>real 4 - 10 / 7\<bar> \<and>
   ev_type (VolumeEvent 738890 ''high_activity'' ''Unusual high activity detected'' (6 / 7) 4 (10 / 7))
     = ''high_activity''"
proof -
  have 1: "\<not> df_empty spike_frame" by (simp add: df_empty_def spike_frame_def)
  have 2: "10 \<le> length (rows spike_frame)" by (simp add: spike_rows)
  have 3: "(738890, 4) \<in> set (daily_counts spike_frame)" by (simp add: spike_counts)
  have 4: "map_of (rolling_avg_of (daily_counts spike_frame)) 738890 = Some (Some (10 / 7))"
    by (simp add: spike_rolling)
  have 5: "2 * 1 * (1 + rounding_margin) < \<bar>real 4 - 10 / 7\<bar>"
    by (simp add: rounding_margin_def)
  from volume_anomaly_threshold [OF spike_events 1 2 3 4] spike_std spike_events 3 4 5
  show ?thesis by (auto simp: counts_series_def)
qed

theorem anomaly_confidence_range_witness:
  "detect_life_events spike_frame =
     Inr ([VolumeEvent 738890 ''high_activity'' ''Unusual high activity detected'' (6 / 7) 4 (10 / 7)],
          spike_frame\<lparr>columns := [''datetime'', ''predicted_activity'', ''date'']\<rparr>) \<and>
   2 / 3 < ev_confidence
     (VolumeEvent 738890 ''high_activity'' ''Unusual high activity detected'' (6 / 7) 4 (10 / 7)) \<and>
   ev_confidence
     (VolumeEvent 738890 ''high_activity'' ''Unusual high activity detected'' (6 / 7) 4 (10 / 7)) \<le> 1"
  using anomaly_confidence_range [OF spike_events] spike_events by simp

theorem rolling_baseline_window_witness:
  "map_of (rolling_avg_of (daily_counts spike_frame)) (fst (daily_counts spike_frame ! 0)) = Some None \<and>
   detect_life_events spike_frame =
     Inr ([VolumeEvent 738890 ''high_activity'' ''Unusual high activity detected'' (6 / 7) 4 (10 / 7)],
          spike_frame\<lparr>columns := [''datetime'', ''predicted_activity'', ''date'']\<rparr>) \<and>
   ev_date (VolumeEvent 738890 ''high_activity'' ''Unusual high activity detected'' (6 / 7) 4 (10 / 7))
     \<noteq> fst (daily_counts spike_frame ! 0)"
  using rolling_baseline_window [of 0 spike_frame
      "[VolumeEvent 738890 ''high_activity'' ''Unusual high activity detected'' (6 / 7) 4 (10 / 7)]"
      "spike_frame\<lparr>columns := [''datetime'', ''predicted_activity'', ''date'']\<rparr>"
      "fst (daily_counts spike_frame ! 0)"]
    spike_events
  by (simp add: spike_counts)

text \<open>
  C2 as stated fails on the first date of the spike frame: the code has no baseline
  for it, where the mean of the values that exist in its window would be 1.
\<close>

theorem boundary_baseline_counterexample:
  "map_of (rolling_avg_of (daily_counts spike_frame)) 738886 = Some None \<and>
   map_of (spec_rolling_avg_of (daily_counts spike_frame)) 738886 = Some (Some 1)"
  unfolding spike_rolling unfolding spike_counts
  by (simp add: spec_rolling_avg_of_def rolling_mean_centered_def Let_def upt_9)

section \<open>Daily routine\<close>

text \<open>
  C10. For every frame without a \<^verbatim>\<open>datetime\<close> column, empty or not,
  \<^verbatim>\<open>analyze_daily_routine\<close> returns the empty dictionary: it raises nothing, and
  the frame is as it was.
\<close>

theorem analyze_daily_routine_no_datetime:
  "''datetime'' \<notin> set (columns data) \<Longrightarrow> analyze_daily_routine data = Inr ([], data)"
  by (simp add: analyze_daily_routine_def)

theorem analyze_daily_routine_no_datetime_witness:
  "\<not> df_empty timestamp_frame \<and> ''datetime'' \<notin> set (columns timestamp_frame) \<and>
   analyze_daily_routine timestamp_frame = Inr ([], timestamp_frame)"
  using analyze_daily_routine_no_datetime [of timestamp_frame]
  by (simp add: timestamp_frame_def df_empty_def)

lemma fold_max_Max: "fold max ys (a::nat) = Max (set (a # ys))"
  by (rule Max.set_eq_fold [symmetric])

lemma max_count_ge: "v \<in> set xs \<Longrightarrow> count_list xs v \<le> max_count xs"
  unfolding max_count_def fold_max_Max by (rule Max_ge) auto

lemma max_count_attained:
  assumes "xs \<noteq> []"
  shows "\<exists>v\<in>set xs. count_list xs v = max_count xs"
proof -
  let ?S = "set (0 # map (count_list xs) xs)"
  have "Max ?S \<in> ?S" by (rule Max_in) auto
  moreover from assms obtain x where x: "x \<in> set xs" by (cases xs) auto
  then have "0 < count_list xs x" using count_list_0_iff [of xs x] by auto
  with max_count_ge [OF x] have "max_count xs \<noteq> 0" by simp
  ultimately show ?thesis unfolding max_count_def fold_max_Max by auto
qed

lemma sort_Cons_min:
  assumes "sort l = m # ms"
  shows "m \<in> set l \<and> (\<forall>v\<in>set l. m \<le> (v::nat))"
proof -
  have "set (sort l) = set l" by simp
  moreover have "sorted (sort l)" by simp
  ultimately show ?thesis unfolding assms by auto
qed

lemma mode_iloc0_smallest:
  assumes "s \<noteq> []"
  shows "\<exists>m. mode_iloc0 s = Inr (Some m) \<and> is_smallest_mode s m"
proof -
  let ?modes = "filter (\<lambda>v. count_list s v = max_count s) (remdups s)"
  from max_count_attained [OF assms] have "?modes \<noteq> []"
    by (auto simp: filter_empty_conv)
  then have "sort ?modes \<noteq> []" by (metis length_0_conv length_sort)
  then obtain m ms where ms: "sort ?modes = m # ms" by (cases "sort ?modes") auto
  from sort_Cons_min [OF ms] have m: "m \<in> set s" "count_list s m = max_count s"
    and least: "\<forall>v\<in>set s. count_list s v = max_count s \<longrightarrow> m \<le> v" by auto
  have "is_smallest_mode s m"
    unfolding is_smallest_mode_def using m least max_count_ge [of _ s] by auto
  moreover have "mode_iloc0 s = Inr (Some m)"
    using assms ms by (simp add: mode_iloc0_def series_mode_def)
  ultimately show ?thesis by blast
qed

lemma groupby_agg_nonempty:
  assumes "kvs \<noteq> []"
  shows "groupby_agg f kvs \<noteq> []"
proof
  assume "groupby_agg f kvs = []"
  then have "sort (remdups (map fst kvs)) = []" by (simp add: groupby_agg_def)
  then have "set (sort (remdups (map fst kvs))) = {}" by (simp only: set_simps)
  with assms show False by simp
qed

lemma daily_activity_nonempty:
  "rs \<noteq> [] \<Longrightarrow> daily_first_activity rs \<noteq> [] \<and> daily_last_activity rs \<noteq> []"
  using groupby_agg_nonempty [of "map (\<lambda>r. (day (datetime r), hour (datetime r))) rs"]
  by (simp add: daily_first_activity_def daily_last_activity_def)




lemma tie_hourly: "groupby_size (map (\<lambda>r. hour (datetime r)) (rows tie_frame)) = [(7, 1), (9, 1)]"
  by (simp add: groupby_size_def tie_frame_def hour_def)





section \<open>Trends, keys and the caller's frame\<close>

text \<open>
  \<open>polyfit1\<close> is the least-squares line: where the normal equations have one
  solution, no line has a smaller sum of squared residuals.
\<close>

lemma upt_3: "[0..<3] = [0, 1, 2::nat]"
  by code_simp

lemma squares_shift:
  "sum_list (map (\<lambda>xy. (snd xy - (a * fst xy + b)) * (snd xy - (a * fst xy + b))) zs) =
   sum_list (map (\<lambda>xy. (snd xy - (a0 * fst xy + b0)) * (snd xy - (a0 * fst xy + b0))) zs)
   + 2 * (a0 - a) * sum_list (map (\<lambda>xy. (snd xy - (a0 * fst xy + b0)) * fst xy) zs)
   + 2 * (b0 - b) * sum_list (map (\<lambda>xy. snd xy - (a0 * fst xy + b0)) zs)
   + sum_list (map (\<lambda>xy. ((a0 - a) * fst xy + (b0 - b)) * ((a0 - a) * fst xy + (b0 - b))) zs)"
  for zs :: "(real \<times> real) list"
  by (induction zs) (simp_all add: algebra_simps)

lemma residual_sum:
  "sum_list (map (\<lambda>xy. snd xy - (a0 * fst xy + b0)) zs) =
     sum_list (map snd zs) - a0 * sum_list (map fst zs) - real (length zs) * b0"
  for zs :: "(real \<times> real) list"
  by (induction zs) (simp_all add: algebra_simps)

lemma residual_moment:
  "sum_list (map (\<lambda>xy. (snd xy - (a0 * fst xy + b0)) * fst xy) zs) =
     sum_list (map (\<lambda>xy. fst xy * snd xy) zs)
     - a0 * sum_list (map (\<lambda>xy. fst xy * fst xy) zs) - b0 * sum_list (map fst zs)"
  for zs :: "(real \<times> real) list"
  by (induction zs) (simp_all add: algebra_simps)

lemma polyfit1_least_squares:
  assumes len: "length xs = length ys"
    and det: "real (length xs) * sum_list (map (\<lambda>x. x * x) xs) - sum_list xs * sum_list xs \<noteq> 0"
  shows "sum_squares xs ys (fst (polyfit1 xs ys)) (snd (polyfit1 xs ys)) \<le> sum_squares xs ys a b"
proof -
  let ?zs = "zip xs ys"
  define n where "n = real (length xs)"
  define sx where "sx = sum_list xs"
  define sy where "sy = sum_list ys"
  define sxx where "sxx = sum_list (map (\<lambda>x. x * x) xs)"
  define sxy where "sxy = sum_list (map (\<lambda>xy. fst xy * snd xy) ?zs)"
  define a0 where "a0 = (n * sxy - sx * sy) / (n * sxx - sx * sx)"
  define b0 where "b0 = (sy - a0 * sx) / n"
  have p: "polyfit1 xs ys = (a0, b0)"
    by (simp add: polyfit1_def Let_def n_def sx_def sy_def sxx_def sxy_def a0_def b0_def)
  have d: "n * sxx - sx * sx \<noteq> 0" using det by (simp add: n_def sxx_def sx_def)
  have n0: "n \<noteq> 0"
  proof
    assume "n = 0"
    then have "xs = []" by (simp add: n_def)
    with det show False by simp
  qed
  have fs: "sum_list (map fst ?zs) = sx" "sum_list (map snd ?zs) = sy" "real (length ?zs) = n"
    using len by (simp_all add: sx_def sy_def n_def)
  have "map (\<lambda>xy. fst xy * fst xy) ?zs = map (\<lambda>x. x * x) (map fst ?zs)" by (simp add: comp_def)
  then have fxx: "sum_list (map (\<lambda>xy. fst xy * fst xy) ?zs) = sxx"
    using len by (simp add: sxx_def)
  have r0: "sum_list (map (\<lambda>xy. snd xy - (a0 * fst xy + b0)) ?zs) = 0"
    unfolding residual_sum fs using n0 by (simp add: b0_def)
  have "sxy - a0 * sxx - b0 * sx = (n * sxy - sx * sy - a0 * (n * sxx - sx * sx)) / n"
    using n0 by (simp add: b0_def field_simps)
  also have "\<dots> = 0" using d by (simp add: a0_def)
  finally have r1: "sum_list (map (\<lambda>xy. (snd xy - (a0 * fst xy + b0)) * fst xy) ?zs) = 0"
    unfolding residual_moment fs fxx sxy_def [symmetric] .
  have "0 \<le> sum_list (map (\<lambda>xy. ((a0 - a) * fst xy + (b0 - b)) * ((a0 - a) * fst xy + (b0 - b))) ?zs)"
    by (rule sum_list_nonneg) auto
  then show ?thesis
    unfolding p sum_squares_def fst_conv snd_conv
    by (subst squares_shift [where ?a0.0 = a0 and ?b0.0 = b0]) (simp add: r0 r1)
qed

lemma polyfit1_least_squares_three:
  assumes "length ys = 3"
  shows "sum_squares (map real [0..<3]) ys
           (fst (polyfit1 (map real [0..<3]) ys)) (snd (polyfit1 (map real [0..<3]) ys))
         \<le> sum_squares (map real [0..<3]) ys a b"
  by (rule polyfit1_least_squares) (simp_all add: assms upt_3)

lemma set_unique: "set (unique seen xs) = set xs - set seen"
  by (induction xs arbitrary: seen) auto

lemma activity_trends_loop_map_of:
  "map_of (activity_trends_loop polyfit rs acc labels) l =
     (case map_of acc l of
        Some t \<Rightarrow> Some t
      | None \<Rightarrow>
          if l \<in> set labels \<and>
             3 \<le> length (weekly_counts_of (filter (\<lambda>r. predicted_activity r = l) rs))
          then Some (calculate_trend polyfit
                 (weekly_counts_of (filter (\<lambda>r. predicted_activity r = l) rs)))
          else None)"
proof (induction labels arbitrary: acc)
  case Nil
  then show ?case by (simp split: option.splits)
next
  case (Cons a labels)
  show ?case
  proof (cases "2 < length (weekly_counts_of (filter (\<lambda>r. predicted_activity r = a) rs))")
    case True
    then show ?thesis
      by (simp add: Cons.IH Let_def map_add_def split: option.splits)
  next
    case False
    then show ?thesis
      by (auto simp add: Cons.IH Let_def split: option.splits)
  qed
qed

lemma analyze_activity_trends_result:
  assumes "analyze_activity_trends polyfit data = Inr (trends, data')" and "\<not> df_empty data"
  shows "trends =
     (if 2 < length (weekly_counts_of (rows data))
      then [(''overall_trend'', TFloat (calculate_trend polyfit (weekly_counts_of (rows data)))),
            (''trend_direction'',
               TStr (trend_direction (calculate_trend polyfit (weekly_counts_of (rows data)))))]
      else []) @
     [(''activity_specific_trends'',
         TDict (activity_trends_loop polyfit (rows data) []
                  (unique [] (map predicted_activity (rows data))))),
      (''hourly_distribution'', THist (groupby_size (map (\<lambda>r. hour (datetime r)) (rows data))))]"
proof -
  obtain dts where d: "get_series AttributeError data ''datetime'' datetime = Inr dts"
    using assms by (cases "get_series AttributeError data ''datetime'' datetime")
      (simp_all add: analyze_activity_trends_def)
  have w: "\<not> 1 < count_list (columns (set_column data ''week'')) ''week''"
    using assms d by (auto simp add: analyze_activity_trends_def Let_def split: if_splits)
  obtain labels where l: "get_series AttributeError (set_column data ''week'')
      ''predicted_activity'' predicted_activity = Inr labels"
    using assms d w by (cases "get_series AttributeError (set_column data ''week'')
      ''predicted_activity'' predicted_activity") (simp_all add: analyze_activity_trends_def Let_def)
  have "labels = map predicted_activity (rows data)"
    using get_series_rows [OF l] by simp
  with assms d l w show ?thesis
    by (simp add: analyze_activity_trends_def Let_def cong: if_cong)
qed

text \<open>
  C7. In the result of \<^verbatim>\<open>_analyze_activity_trends\<close> on a non-empty frame, the keys
  \<^verbatim>\<open>overall_trend\<close> and \<^verbatim>\<open>trend_direction\<close> are present exactly when the series
  of weekly counts has at least three points, and a label has an entry under
  \<^verbatim>\<open>activity_specific_trends\<close> exactly when its own weekly series has at least
  three points. A series of fewer than three points is left out, slope and direction;
  a series of three or more is reported with the slope of the line fitted to the
  points at 0, 1, 2, ... (and the direction is that of the reported slope). An empty
  frame gives the empty result.
\<close>

theorem trend_three_point_gate:
  assumes "analyze_activity_trends polyfit data = Inr (trends, data')"
  shows "(df_empty data \<longrightarrow> trends = []) \<and>
    (\<not> df_empty data \<longrightarrow>
      map_of trends ''overall_trend'' =
        (if 3 \<le> length (weekly_counts_of (rows data))
         then Some (TFloat (fst (polyfit (map real [0..<length (weekly_counts_of (rows data))])
                                    (weekly_counts_of (rows data)))))
         else None) \<and>
      map_of trends ''trend_direction'' =
        (if 3 \<le> length (weekly_counts_of (rows data))
         then Some (TStr (trend_direction
                 (fst (polyfit (map real [0..<length (weekly_counts_of (rows data))])
                         (weekly_counts_of (rows data))))))
         else None) \<and>
      (\<exists>activity_trends.
         map_of trends ''activity_specific_trends'' = Some (TDict activity_trends) \<and>
         (\<forall>label. map_of activity_trends label =
            (let weekly = weekly_counts_of (filter (\<lambda>r. predicted_activity r = label) (rows data))
             in if label \<in> predicted_activity ` set (rows data) \<and> 3 \<le> length weekly
                then Some (fst (polyfit (map real [0..<length weekly]) weekly))
                else None))))"
proof (intro conjI impI)
  assume "df_empty data"
  with assms show "trends = []" by (simp add: analyze_activity_trends_def)
next
  assume ne: "\<not> df_empty data"
  note r = analyze_activity_trends_result [OF assms ne]
  show "map_of trends ''overall_trend'' =
        (if 3 \<le> length (weekly_counts_of (rows data))
         then Some (TFloat (fst (polyfit (map real [0..<length (weekly_counts_of (rows data))])
                                    (weekly_counts_of (rows data)))))
         else None)"
    unfolding r by (simp add: calculate_trend_def)
  show "map_of trends ''trend_direction'' =
        (if 3 \<le> length (weekly_counts_of (rows data))
         then Some (TStr (trend_direction
                 (fst (polyfit (map real [0..<length (weekly_counts_of (rows data))])
                         (weekly_counts_of (rows data))))))
         else None)"
    unfolding r by (simp add: calculate_trend_def)
  have "map_of trends ''activity_specific_trends'' =
      Some (TDict (activity_trends_loop polyfit (rows data) []
                  (unique [] (map predicted_activity (rows data)))))"
    unfolding r by simp
  moreover have "map_of (activity_trends_loop polyfit (rows data) []
                  (unique [] (map predicted_activity (rows data)))) label =
            (let weekly = weekly_counts_of (filter (\<lambda>r. predicted_activity r = label) (rows data))
             in if label \<in> predicted_activity ` set (rows data) \<and> 3 \<le> length weekly
                then Some (fst (polyfit (map real [0..<length weekly]) weekly))
                else None)" for label
    by (simp add: activity_trends_loop_map_of set_unique calculate_trend_def Let_def)
  ultimately show "\<exists>activity_trends.
         map_of trends ''activity_specific_trends'' = Some (TDict activity_trends) \<and>
         (\<forall>label. map_of activity_trends label =
            (let weekly = weekly_counts_of (filter (\<lambda>r. predicted_activity r = label) (rows data))
             in if label \<in> predicted_activity ` set (rows data) \<and> 3 \<le> length weekly
                then Some (fst (polyfit (map real [0..<length weekly]) weekly))
                else None))" by blast
qed

lemma trend_weekly: "weekly_counts_of (rows trend_frame) = [2, 3, 3]"
  by (simp add: weekly_counts_of_def groupby_size_def trend_frame_def jan_def week_def)

lemma trend_weekly_work:
  "weekly_counts_of (filter (\<lambda>r. predicted_activity r = ''Work'') (rows trend_frame)) = [1, 2, 3]"
  by (simp add: weekly_counts_of_def groupby_size_def trend_frame_def jan_def week_def)

lemma trend_weekly_travel:
  "weekly_counts_of (filter (\<lambda>r. predicted_activity r = ''Travel'') (rows trend_frame)) = [1, 1]"
  by (simp add: weekly_counts_of_def groupby_size_def trend_frame_def jan_def week_def)

lemma trend_slopes:
  "calculate_trend polyfit1 [2, 3, 3] = 1 / 2" "calculate_trend polyfit1 [1, 2, 3] = 1"
  by (simp_all add: calculate_trend_def polyfit1_def upt_3 Let_def)

lemma trend_frame_trends:
  "analyze_activity_trends polyfit1 trend_frame =
     Inr ([(''overall_trend'', TFloat (1 / 2)), (''trend_direction'', TStr ''increasing''),
           (''activity_specific_trends'', TDict [(''Work'', 1)]),
           (''hourly_distribution'', THist [(9, 8)])],
          trend_frame\<lparr>columns := [''datetime'', ''predicted_activity'', ''week'']\<rparr>)"
proof -
  have c: "columns trend_frame = [''datetime'', ''predicted_activity'']"
    and ne: "rows trend_frame \<noteq> []" by (simp_all add: trend_frame_def)
  have u: "unique [] (map predicted_activity (rows trend_frame)) = [''Work'', ''Travel'']"
    by (simp add: trend_frame_def jan_def)
  have h: "groupby_size (map (\<lambda>r. hour (datetime r)) (rows trend_frame)) = [(9, 8)]"
    by (simp add: groupby_size_def trend_frame_def jan_def hour_def)
  show ?thesis
    by (simp add: analyze_activity_trends_def df_empty_def c ne get_series_def set_column_def
        Let_def trend_weekly trend_weekly_work trend_weekly_travel trend_slopes
        trend_direction_def u h)
qed

theorem trend_three_point_gate_witness:
  "analyze_activity_trends polyfit1 trend_frame =
     Inr ([(''overall_trend'', TFloat (1 / 2)), (''trend_direction'', TStr ''increasing''),
           (''activity_specific_trends'', TDict [(''Work'', 1)]),
           (''hourly_distribution'', THist [(9, 8)])],
          trend_frame\<lparr>columns := [''datetime'', ''predicted_activity'', ''week'']\<rparr>) \<and>
   length (weekly_counts_of (rows trend_frame)) = 3 \<and>
   length (weekly_counts_of (filter (\<lambda>r. predicted_activity r = ''Travel'') (rows trend_frame))) = 2 \<and>
   map_of [(''Work'', 1 :: real)] ''Travel'' = None \<and>
   map_of [(''Work'', 1 :: real)] ''Work'' =
     Some (fst (polyfit1 (map real [0..<3]) [1, 2, 3]))"
  using trend_three_point_gate [OF trend_frame_trends] trend_frame_trends
  by (simp add: trend_weekly trend_weekly_travel trend_weekly_work polyfit1_def upt_3 Let_def)

lemma analyze_daily_routine_keys:
  assumes "analyze_daily_routine data = Inr (patterns, data')"
  shows "data' = data \<and> map fst patterns =
     (if df_empty data \<or> ''datetime'' \<notin> set (columns data) then []
      else [''wake_up_time'', ''sleep_time'', ''hourly_activity'', ''peak_hours'', ''quiet_hours''])"
  using assms
  by (auto simp: analyze_daily_routine_def Let_def split: if_splits sum.splits)

text \<open>
  C3, as amended. The code has no combined structure: each analysis returns its own.
  \<^verbatim>\<open>analyze_daily_routine\<close> returns the dictionary without keys for an empty frame
  and for a frame without a \<^verbatim>\<open>datetime\<close> column, and otherwise the five keys
  \<^verbatim>\<open>wake_up_time\<close>, \<^verbatim>\<open>sleep_time\<close>, \<^verbatim>\<open>hourly_activity\<close>, \<^verbatim>\<open>peak_hours\<close>,
  \<^verbatim>\<open>quiet_hours\<close>. \<^verbatim>\<open>_analyze_activity_trends\<close> returns the dictionary without
  keys for an empty frame; otherwise it has \<^verbatim>\<open>activity_specific_trends\<close> and
  \<^verbatim>\<open>hourly_distribution\<close>, and \<^verbatim>\<open>overall_trend\<close> and \<^verbatim>\<open>trend_direction\<close> only
  when there are at least three weekly counts. \<^verbatim>\<open>detect_life_events\<close> returns the
  empty list for an empty frame and for fewer than ten rows.
\<close>

theorem analysis_keys:
  "(analyze_daily_routine data = Inr (patterns, d1) \<longrightarrow>
      map fst patterns =
        (if df_empty data \<or> ''datetime'' \<notin> set (columns data) then []
         else [''wake_up_time'', ''sleep_time'', ''hourly_activity'', ''peak_hours'',
               ''quiet_hours''])) \<and>
   (analyze_activity_trends polyfit data = Inr (trends, d2) \<longrightarrow>
      map fst trends =
        (if df_empty data then []
         else (if 3 \<le> length (weekly_counts_of (rows data))
               then [''overall_trend'', ''trend_direction''] else []) @
              [''activity_specific_trends'', ''hourly_distribution''])) \<and>
   (df_empty data \<or> length (rows data) < 10 \<longrightarrow> detect_life_events data = Inr ([], data))"
proof (intro conjI impI)
  assume "analyze_daily_routine data = Inr (patterns, d1)"
  from analyze_daily_routine_keys [OF this]
  show "map fst patterns =
        (if df_empty data \<or> ''datetime'' \<notin> set (columns data) then []
         else [''wake_up_time'', ''sleep_time'', ''hourly_activity'', ''peak_hours'',
               ''quiet_hours''])" by simp
next
  assume a: "analyze_activity_trends polyfit data = Inr (trends, d2)"
  show "map fst trends =
        (if df_empty data then []
         else (if 3 \<le> length (weekly_counts_of (rows data))
               then [''overall_trend'', ''trend_direction''] else []) @
              [''activity_specific_trends'', ''hourly_distribution''])"
  proof (cases "df_empty data")
    case True
    with a show ?thesis by (simp add: analyze_activity_trends_def)
  next
    case False
    from analyze_activity_trends_result [OF a False] False show ?thesis by simp
  qed
next
  assume "df_empty data \<or> length (rows data) < 10"
  then show "detect_life_events data = Inr ([], data)" by (rule detect_life_events_small)
qed

lemma empty_frame_routine: "analyze_daily_routine empty_frame = Inr ([], empty_frame)"
  by (simp add: analyze_daily_routine_def df_empty_def empty_frame_def)

lemma empty_frame_trends: "analyze_activity_trends polyfit empty_frame = Inr ([], empty_frame)"
  by (simp add: analyze_activity_trends_def df_empty_def empty_frame_def)

lemma spike_weekly: "weekly_counts_of (rows spike_frame) = [10, 2]"
  by (simp add: weekly_counts_of_def groupby_size_def spike_frame_def work_def jan_def week_def)

lemma spike_frame_trends:
  "analyze_activity_trends polyfit1 spike_frame =
     Inr ([(''activity_specific_trends'', TDict []), (''hourly_distribution'', THist [(9, 12)])],
          spike_frame\<lparr>columns := [''datetime'', ''predicted_activity'', ''week'']\<rparr>)"
proof -
  have c: "columns spike_frame = [''datetime'', ''predicted_activity'']"
    and ne: "rows spike_frame \<noteq> []" by (simp_all add: spike_frame_def)
  have u: "unique [] (map predicted_activity (rows spike_frame)) = [''Work'']"
    by (simp add: spike_frame_def)
  have f: "filter (\<lambda>r. predicted_activity r = ''Work'') (rows spike_frame) = rows spike_frame"
    by (simp add: spike_frame_def)
  have h: "groupby_size (map (\<lambda>r. hour (datetime r)) (rows spike_frame)) = [(9, 12)]"
    by (simp add: groupby_size_def spike_frame_def work_def jan_def hour_def)
  show ?thesis
    by (simp add: analyze_activity_trends_def df_empty_def c ne get_series_def set_column_def
        Let_def spike_weekly u h f)
qed

text \<open>
  C3 as stated fails: for a frame without rows both dictionaries have no key at all,
  and for the twelve rows of the spike frame, which fall into two weeks, the trends
  have neither \<^verbatim>\<open>overall_trend\<close> nor \<^verbatim>\<open>trend_direction\<close>.
\<close>

theorem absent_keys_counterexample:
  "analyze_daily_routine empty_frame = Inr ([], empty_frame) \<and>
   analyze_activity_trends polyfit1 empty_frame = Inr ([], empty_frame) \<and>
   \<not> df_empty spike_frame \<and>
   analyze_activity_trends polyfit1 spike_frame =
     Inr ([(''activity_specific_trends'', TDict []), (''hourly_distribution'', THist [(9, 12)])],
          spike_frame\<lparr>columns := [''datetime'', ''predicted_activity'', ''week'']\<rparr>)"
  using empty_frame_routine empty_frame_trends spike_frame_trends
  by (simp add: df_empty_def spike_frame_def)

lemma analyze_daily_routine_total:
  assumes "\<not> df_empty data" and "''datetime'' \<in> set (columns data)"
  shows "\<exists>patterns. analyze_daily_routine data = Inr (patterns, data)"
proof -
  from assms(1) have ne: "rows data \<noteq> []" by (simp add: df_empty_def)
  from daily_activity_nonempty [OF ne] mode_iloc0_smallest obtain wake sleep where
    "mode_iloc0 (daily_first_activity (rows data)) = Inr (Some wake)"
    "mode_iloc0 (daily_last_activity (rows data)) = Inr (Some sleep)"
    by metis
  with assms show ?thesis by (simp add: analyze_daily_routine_def Let_def)
qed

theorem analysis_keys_witness:
  "routine_keys trend_frame =
     [''wake_up_time'', ''sleep_time'', ''hourly_activity'', ''peak_hours'', ''quiet_hours''] \<and>
   map fst [(''overall_trend'', TFloat (1 / 2)), (''trend_direction'', TStr ''increasing''),
           (''activity_specific_trends'', TDict [(''Work'', 1)]),
           (''hourly_distribution'', THist [(9, 8)])] =
     [''overall_trend'', ''trend_direction'', ''activity_specific_trends'', ''hourly_distribution''] \<and>
   length (rows trend_frame) < 10 \<and>
   detect_life_events trend_frame = Inr ([], trend_frame)"
proof -
  have 1: "\<not> df_empty trend_frame" and 2: "''datetime'' \<in> set (columns trend_frame)"
    and 3: "length (rows trend_frame) < 10"
    by (simp_all add: trend_frame_def df_empty_def)
  from analyze_daily_routine_total [OF 1 2] obtain patterns where
    p: "analyze_daily_routine trend_frame = Inr (patterns, trend_frame)" by blast
  from analysis_keys [of trend_frame patterns trend_frame polyfit1
      "[(''overall_trend'', TFloat (1 / 2)), (''trend_direction'', TStr ''increasing''),
           (''activity_specific_trends'', TDict [(''Work'', 1)]),
           (''hourly_distribution'', THist [(9, 8)])]"
      "trend_frame\<lparr>columns := [''datetime'', ''predicted_activity'', ''week'']\<rparr>"]
    p trend_frame_trends 1 2 3
  show ?thesis by (simp add: routine_keys_def)
qed

lemma timestamp_flat_counts: "daily_counts timestamp_flat_frame = daily_counts flat_frame"
  by (simp add: daily_counts_def timestamp_flat_frame_def)

lemma timestamp_flat_events:
  "detect_life_events timestamp_flat_frame =
     Inr ([], timestamp_flat_frame
            \<lparr>columns := [''timestamp'', ''predicted_activity'', ''datetime'', ''date'']\<rparr>)"
proof -
  have c: "columns timestamp_flat_frame = [''timestamp'', ''predicted_activity'']"
    by (simp add: timestamp_flat_frame_def)
  have n: "\<not> length (rows timestamp_flat_frame) < 10" and ne: "rows timestamp_flat_frame \<noteq> []"
    by (simp_all add: timestamp_flat_frame_def flat_frame_def)
  have g: "groupby_size (map (day \<circ> datetime) (rows timestamp_flat_frame)) = daily_counts flat_frame"
    using timestamp_flat_counts by (simp add: daily_counts_def comp_def)
  have t: "detect_travel_patterns (timestamp_flat_frame
            \<lparr>columns := [''timestamp'', ''predicted_activity'', ''datetime'', ''date'']\<rparr>) = Inr []"
    by (rule no_travel) (simp_all add: timestamp_flat_frame_def flat_frame_def)
  show ?thesis
    unfolding detect_life_events_def
    by (simp add: df_empty_def n ne c get_series_def g flat_loop t Let_def set_column_def)
qed

text \<open>
  C4. \<^verbatim>\<open>detect_life_events\<close> does not leave the caller's frame as it was. Given
  ten rows under the columns \<^verbatim>\<open>timestamp\<close> and \<^verbatim>\<open>predicted_activity\<close>, it
  returns no event and leaves the columns \<^verbatim>\<open>datetime\<close> and \<^verbatim>\<open>date\<close> behind in
  the frame. \<^verbatim>\<open>analyze_daily_routine\<close>, which copies the frame it is given, returns
  the empty dictionary on the frame before that call and the five keys on the frame
  after it.
\<close>

theorem detect_life_events_writes_frame:
  "analyze_daily_routine timestamp_flat_frame = Inr ([], timestamp_flat_frame) \<and>
   detect_life_events timestamp_flat_frame =
     Inr ([], timestamp_flat_frame
            \<lparr>columns := [''timestamp'', ''predicted_activity'', ''datetime'', ''date'']\<rparr>) \<and>
   timestamp_flat_frame
     \<lparr>columns := [''timestamp'', ''predicted_activity'', ''datetime'', ''date'']\<rparr>
     \<noteq> timestamp_flat_frame \<and>
   routine_keys (timestamp_flat_frame
     \<lparr>columns := [''timestamp'', ''predicted_activity'', ''datetime'', ''date'']\<rparr>) =
     [''wake_up_time'', ''sleep_time'', ''hourly_activity'', ''peak_hours'', ''quiet_hours'']"
proof -
  let ?after = "timestamp_flat_frame
     \<lparr>columns := [''timestamp'', ''predicted_activity'', ''datetime'', ''date'']\<rparr>"
  have 1: "analyze_daily_routine timestamp_flat_frame = Inr ([], timestamp_flat_frame)"
    by (simp add: analyze_daily_routine_def timestamp_flat_frame_def)
  have a: "\<not> df_empty ?after" "''datetime'' \<in> set (columns ?after)"
    by (simp_all add: df_empty_def timestamp_flat_frame_def flat_frame_def)
  from analyze_daily_routine_total [OF a] obtain patterns where
    p: "analyze_daily_routine ?after = Inr (patterns, ?after)" by blast
  from analyze_daily_routine_keys [OF p] a have "map fst patterns =
     [''wake_up_time'', ''sleep_time'', ''hourly_activity'', ''peak_hours'', ''quiet_hours'']"
    by simp
  with p have 4: "routine_keys ?after =
     [''wake_up_time'', ''sleep_time'', ''hourly_activity'', ''peak_hours'', ''quiet_hours'']"
    by (simp add: routine_keys_def)
  have 3: "?after \<noteq> timestamp_flat_frame"
    by (simp add: timestamp_flat_frame_def flat_frame_def dataframe.equality)
  from 1 timestamp_flat_events 3 4 show ?thesis by blast
qed

end
